theory Spec2Isabelle
  imports Complex_Main "HOL-Library.AList"
begin

section \<open>The dependency graph\<close>

text \<open>
  The planner keeps its precedence graph in a \<^verbatim>\<open>networkx.DiGraph\<close> whose nodes are skill
  strings. The model keeps the node list in insertion order (without repetition) and the
  edge list in insertion order (without repetition). The operations below are the
  \<^verbatim>\<open>DiGraph\<close> methods that the planner calls.
\<close>

type_synonym skill = string

record digraph =
  nodes :: "skill list"
  edges :: "(skill \<times> skill) list"

definition DiGraph :: digraph where
  "DiGraph = \<lparr>nodes = [], edges = []\<rparr>"

definition add_node :: "skill \<Rightarrow> digraph \<Rightarrow> digraph" where
  "add_node n g = (if n \<in> set (nodes g) then g else g\<lparr>nodes := nodes g @ [n]\<rparr>)"

definition add_nodes_from :: "skill list \<Rightarrow> digraph \<Rightarrow> digraph" where
  "add_nodes_from ns g = fold add_node ns g"

text \<open>Adding an edge also adds its end points when they are not nodes yet.\<close>

definition add_edge :: "skill \<times> skill \<Rightarrow> digraph \<Rightarrow> digraph" where
  "add_edge e g =
     (let g' = add_node (snd e) (add_node (fst e) g)
      in if e \<in> set (edges g') then g' else g'\<lparr>edges := edges g' @ [e]\<rparr>)"

definition add_edges_from :: "(skill \<times> skill) list \<Rightarrow> digraph \<Rightarrow> digraph" where
  "add_edges_from es g = fold add_edge es g"

text \<open>Removing nodes removes their incident edges; nodes that are absent are ignored.\<close>

definition remove_nodes_from :: "skill list \<Rightarrow> digraph \<Rightarrow> digraph" where
  "remove_nodes_from ns g =
     \<lparr>nodes = filter (\<lambda>n. n \<notin> set ns) (nodes g),
      edges = filter (\<lambda>e. fst e \<notin> set ns \<and> snd e \<notin> set ns) (edges g)\<rparr>"

definition number_of_nodes :: "digraph \<Rightarrow> nat" where
  "number_of_nodes g = length (nodes g)"

definition in_degree :: "digraph \<Rightarrow> skill \<Rightarrow> nat" where
  "in_degree g n = length (filter (\<lambda>e. snd e = n) (edges g))"

text \<open>\<^verbatim>\<open>graph.in_degree()\<close>: the (node, in-degree) pairs in node order.\<close>

definition in_degree_view :: "digraph \<Rightarrow> (skill \<times> nat) list" where
  "in_degree_view g = map (\<lambda>n. (n, in_degree g n)) (nodes g)"

section \<open>The frontier extractor\<close>

text \<open>
  \<^verbatim>\<open>get_executable_skills\<close> is the comprehension
  \<^verbatim>\<open>[node for node, in_degree in graph.in_degree() if in_degree == 0]\<close>.
  To state that it leaves the graph alone, \<open>get_executable_skills_st\<close> threads the graph
  through the call as the state.
\<close>

definition get_executable_skills :: "digraph \<Rightarrow> skill list" where
  "get_executable_skills graph =
     map fst (filter (\<lambda>p. snd p = 0) (in_degree_view graph))"

definition get_executable_skills_st :: "digraph \<Rightarrow> skill list \<times> digraph" where
  "get_executable_skills_st graph = (get_executable_skills graph, graph)"

section \<open>Properties of the frontier extractor\<close>

lemma in_degree_zero_iff: "in_degree g n = 0 \<longleftrightarrow> (\<forall>u. (u, n) \<notin> set (edges g))"
  by (auto simp: in_degree_def filter_empty_conv)

lemma get_executable_skills_eq:
  "get_executable_skills g = filter (\<lambda>n. in_degree g n = 0) (nodes g)"
  by (simp add: get_executable_skills_def in_degree_view_def filter_map o_def)

text \<open>
  Claim C6. For every graph, the frontier extractor returns exactly the nodes of the graph
  that have in-degree 0, that is, the nodes no edge points to; it returns the graph it was
  given unchanged; and on the empty graph it returns the empty list.
\<close>

theorem C6_frontier_exact:
  "set (get_executable_skills g) = {n. n \<in> set (nodes g) \<and> in_degree g n = 0}
   \<and> {n. n \<in> set (nodes g) \<and> in_degree g n = 0}
       = {n. n \<in> set (nodes g) \<and> \<not> (\<exists>u. (u, n) \<in> set (edges g))}
   \<and> snd (get_executable_skills_st g) = g
   \<and> fst (get_executable_skills_st g) = get_executable_skills g
   \<and> get_executable_skills DiGraph = []"
  by (auto simp: get_executable_skills_eq in_degree_zero_iff get_executable_skills_st_def
      DiGraph_def)


section \<open>Robots, weights and the linear program\<close>

text \<open>
  A robot is the dictionary \<^verbatim>\<open>{'name': ..., 'type': ...}\<close>. Python's floats are modelled by
  the reals. The two collaborators of the allocator are parameters of the model:
  \<open>rand r s\<close> is the value that \<^verbatim>\<open>np.random.rand()\<close> draws for the pair (robot \<open>r\<close>, skill
  \<open>s\<close>), and \<open>linprog c A_ub b_ub bounds\<close> is the result object of \<^verbatim>\<open>scipy.optimize.linprog\<close>.
\<close>

record robot =
  robot_name :: string
  robot_type :: string

record lp_result =
  success :: bool
  sol_x :: "real list"

type_synonym lp_solver =
  "real list \<Rightarrow> real list list \<Rightarrow> real list \<Rightarrow> (real \<times> real) list \<Rightarrow> lp_result"

datatype error = ValueError | IndexError | OracleError

text \<open>The substring test \<^verbatim>\<open>sub in s\<close> of Python.\<close>

fun starts_with :: "string \<Rightarrow> string \<Rightarrow> bool" where
  "starts_with [] s = True"
| "starts_with (p # ps) [] = False"
| "starts_with (p # ps) (c # cs) = (p = c \<and> starts_with ps cs)"

fun is_in :: "string \<Rightarrow> string \<Rightarrow> bool" where
  "is_in sub [] = (sub = [])"
| "is_in sub (c # cs) = (starts_with sub (c # cs) \<or> is_in sub cs)"

definition weight_entry :: "real \<Rightarrow> robot \<Rightarrow> skill \<Rightarrow> real" where
  "weight_entry simulated_distance robot skill =
     (let weight = 1 / (simulated_distance + 1 / 1000000)
      in if robot_type robot = ''arm_robot'' \<and> is_in ''pick_and_place'' skill then weight
         else if robot_type robot = ''mobile_robot'' \<and> is_in ''transport'' skill then weight
         else 0)"

definition calculate_weights ::
  "(nat \<Rightarrow> nat \<Rightarrow> real) \<Rightarrow> robot list \<Rightarrow> skill list \<Rightarrow> real list list" where
  "calculate_weights rand robots skills =
     map (\<lambda>(r_idx, robot).
            map (\<lambda>(s_idx, skill). weight_entry (rand r_idx s_idx) robot skill)
              (enumerate 0 skills))
       (enumerate 0 robots)"

definition zeros :: "nat \<Rightarrow> nat \<Rightarrow> real list list" where
  "zeros m n = replicate m (replicate n 0)"

definition set_entry :: "nat \<Rightarrow> nat \<Rightarrow> real \<Rightarrow> real list list \<Rightarrow> real list list" where
  "set_entry i j v M = M[i := (M ! i)[j := v]]"

definition A_eq_skill :: "nat \<Rightarrow> nat \<Rightarrow> real list list" where
  "A_eq_skill num_robots num_skills =
     fold (\<lambda>k. fold (\<lambda>j. set_entry k (j * num_skills + k) 1) [0..<num_robots])
       [0..<num_skills] (zeros num_skills (num_robots * num_skills))"

definition A_eq_robot :: "nat \<Rightarrow> nat \<Rightarrow> real list list" where
  "A_eq_robot num_robots num_skills =
     fold (\<lambda>j. fold (\<lambda>k. set_entry j (j * num_skills + k) 1) [0..<num_skills])
       [0..<num_robots] (zeros num_robots (num_robots * num_skills))"

definition A_ub :: "nat \<Rightarrow> nat \<Rightarrow> real list list" where
  "A_ub num_robots num_skills = A_eq_skill num_robots num_skills @ A_eq_robot num_robots num_skills"

definition b_ub :: "nat \<Rightarrow> nat \<Rightarrow> real list" where
  "b_ub num_robots num_skills = replicate num_skills 1 @ replicate num_robots 1"

definition bounds :: "nat \<Rightarrow> nat \<Rightarrow> (real \<times> real) list" where
  "bounds num_robots num_skills = replicate (num_robots * num_skills) (0, 1)"

text \<open>\<^verbatim>\<open>np.round\<close> rounds to the nearest integer, halves to the even neighbour.\<close>

definition np_round :: "real \<Rightarrow> real" where
  "np_round v =
     (let f = \<lfloor>v\<rfloor>; d = v - of_int f
      in if d < 1 / 2 then of_int f
         else if 1 / 2 < d then of_int (f + 1)
         else if even f then of_int f else of_int (f + 1))"

text \<open>\<^verbatim>\<open>reshape\<close> raises \<^verbatim>\<open>ValueError\<close> when the sizes do not agree.\<close>

definition reshape :: "real list \<Rightarrow> nat \<Rightarrow> nat \<Rightarrow> error + real list list" where
  "reshape xs m n =
     (if length xs = m * n then Inr (map (\<lambda>i. take n (drop (i * n) xs)) [0..<m])
      else Inl ValueError)"

text \<open>\<^verbatim>\<open>np.where(row == 1)[0]\<close>: the indices of the entries equal to 1, ascending.\<close>

definition where_eq_1 :: "real list \<Rightarrow> nat list" where
  "where_eq_1 row = filter (\<lambda>k. row ! k = 1) [0..<length row]"

text \<open>
  The returned dictionary is an association list in insertion order; \<open>AList.update\<close>
  overwrites the value of a key that is present and appends a new key otherwise, as a
  Python \<^verbatim>\<open>dict\<close> does. The decoding loop runs on the matrix that \<^verbatim>\<open>reshape\<close> has
  returned, with one row per robot and one column per skill, so that its indexing is
  within range (shown below as \<open>decoder_indices_in_range\<close>); nothing is stated about
  the loop on a matrix of another shape, where Python raises \<^verbatim>\<open>IndexError\<close>.
\<close>

type_synonym assignment = "(string \<times> skill) list"

definition decode_row ::
  "robot list \<Rightarrow> skill list \<Rightarrow> real list list \<Rightarrow> nat \<Rightarrow> assignment \<Rightarrow> assignment" where
  "decode_row robots executable_skills assignment_matrix r_idx assignments =
     (let skill_indices = where_eq_1 (assignment_matrix ! r_idx)
      in if 0 < length skill_indices
         then let skill_index = skill_indices ! 0
              in AList.update (robot_name (robots ! r_idx)) (executable_skills ! skill_index)
                   assignments
         else assignments)"

definition decode_assignments :: "robot list \<Rightarrow> skill list \<Rightarrow> real list list \<Rightarrow> assignment" where
  "decode_assignments robots executable_skills assignment_matrix =
     fold (decode_row robots executable_skills assignment_matrix) [0..<length robots] []"

definition solve_task_allocation ::
  "lp_solver \<Rightarrow> (nat \<Rightarrow> nat \<Rightarrow> real) \<Rightarrow> robot list \<Rightarrow> skill list \<Rightarrow> error + assignment" where
  "solve_task_allocation linprog rand robots executable_skills =
     (let num_robots = length robots; num_skills = length executable_skills
      in if num_skills = 0 then Inr []
         else
           let weights = calculate_weights rand robots executable_skills;
               c = map uminus (concat weights);
               result = linprog c (A_ub num_robots num_skills) (b_ub num_robots num_skills)
                          (bounds num_robots num_skills)
           in if \<not> success result then Inr []
              else
                (case reshape (map np_round (sol_x result)) num_robots num_skills of
                   Inl e \<Rightarrow> Inl e
                 | Inr assignment_matrix \<Rightarrow>
                     Inr (decode_assignments robots executable_skills assignment_matrix)))"

section \<open>Decoding the solution matrix\<close>

lemma map_of_decode_row:
  "map_of (decode_row R S m r a) n =
     (if where_eq_1 (m ! r) \<noteq> [] \<and> robot_name (R ! r) = n
      then Some (S ! hd (where_eq_1 (m ! r))) else map_of a n)"
  by (auto simp: decode_row_def Let_def update_conv hd_conv_nth)

lemma map_of_fold_decode:
  "map_of (fold (decode_row R S m) rs a) n =
     (if filter (\<lambda>r. where_eq_1 (m ! r) \<noteq> [] \<and> robot_name (R ! r) = n) rs = []
      then map_of a n
      else Some (S ! hd (where_eq_1 (m ! last
             (filter (\<lambda>r. where_eq_1 (m ! r) \<noteq> [] \<and> robot_name (R ! r) = n) rs)))))"
proof (induction rs arbitrary: a rule: rev_induct)
  case Nil
  then show ?case by simp
next
  case (snoc r rs)
  show ?case
    by (simp add: map_of_decode_row snoc.IH)
qed

lemma upt_split_prefix:
  assumes "[0..<n] = us @ y # vs"
  shows "y = length us \<and> us = [0..<y] \<and> y < n"
proof -
  have len: "length us < n"
    using arg_cong[OF assms, of length] by simp
  have "[0..<n] ! length us = y"
    by (simp add: assms)
  then have y: "y = length us" using len by simp
  have "take (length us) [0..<n] = us"
    by (simp add: assms)
  then have "us = [0..<length us]" using len by simp
  then show ?thesis using y len by simp
qed

lemma where_eq_1_hd:
  assumes "k < length row" "row ! k = 1"
  shows "where_eq_1 row \<noteq> [] \<and> hd (where_eq_1 row) \<le> k \<and> row ! hd (where_eq_1 row) = 1
         \<and> (\<forall>j < hd (where_eq_1 row). row ! j \<noteq> 1)"
proof -
  have ne: "where_eq_1 row \<noteq> []"
    using assms by (auto simp: where_eq_1_def filter_empty_conv)
  then obtain y ys where eq: "filter (\<lambda>k. row ! k = 1) [0..<length row] = y # ys"
    by (auto simp: where_eq_1_def neq_Nil_conv)
  then obtain us vs where sp: "[0..<length row] = us @ y # vs"
    and no: "\<forall>u\<in>set us. row ! u \<noteq> 1" and py: "row ! y = 1"
    unfolding filter_eq_Cons_iff by blast
  from upt_split_prefix[OF sp] have y: "us = [0..<y]" "y < length row" by blast+
  have hd: "hd (where_eq_1 row) = y" by (simp add: where_eq_1_def eq)
  have below: "\<forall>j<y. row ! j \<noteq> 1"
  proof (intro allI impI)
    fix j assume "j < y"
    then have "j \<in> set us" by (subst y(1)) simp
    then show "row ! j \<noteq> 1" using no by blast
  qed
  have "y \<le> k"
  proof (rule ccontr)
    assume "\<not> y \<le> k"
    then have "k < y" by simp
    then show False using below assms by blast
  qed
  then show ?thesis using ne hd py below by simp
qed

lemma decode_row_distinct:
  "distinct (map fst a) \<Longrightarrow> distinct (map fst (decode_row R S m r a))"
  by (simp add: decode_row_def Let_def distinct_update)

lemma fold_decode_distinct:
  "distinct (map fst a) \<Longrightarrow> distinct (map fst (fold (decode_row R S m) rs a))"
  by (induction rs arbitrary: a) (simp_all add: decode_row_distinct)

lemma decode_assignments_distinct:
  "distinct (map fst (decode_assignments R S m))"
  by (simp add: decode_assignments_def fold_decode_distinct)

lemma decode_row_keys:
  "r < length R \<Longrightarrow> fst ` set a \<subseteq> robot_name ` set R \<Longrightarrow>
   fst ` set (decode_row R S m r a) \<subseteq> robot_name ` set R"
proof -
  assume r: "r < length R" and a: "fst ` set a \<subseteq> robot_name ` set R"
  have "set (map fst (AList.update (robot_name (R ! r)) v a)) \<subseteq> robot_name ` set R" for v
    using r a by (auto simp: update_keys)
  then show ?thesis using a by (auto simp: decode_row_def Let_def)
qed

lemma fold_decode_keys:
  "set rs \<subseteq> {..<length R} \<Longrightarrow> fst ` set a \<subseteq> robot_name ` set R \<Longrightarrow>
   fst ` set (fold (decode_row R S m) rs a) \<subseteq> robot_name ` set R"
proof (induction rs arbitrary: a)
  case Nil
  then show ?case by simp
next
  case (Cons r rs)
  from Cons.prems have r: "r < length R" and rs: "set rs \<subseteq> {..<length R}" by auto
  show ?case using Cons.IH[OF rs decode_row_keys[OF r Cons.prems(2)]] by simp
qed

lemma decode_assignments_keys:
  "fst ` set (decode_assignments R S m) \<subseteq> robot_name ` set R"
  unfolding decode_assignments_def by (rule fold_decode_keys) auto

lemma last_filter_upt:
  assumes "r < n" "P r" "\<forall>r'<n. r < r' \<longrightarrow> \<not> P r'"
  shows "filter P [0..<n] \<noteq> [] \<and> last (filter P [0..<n]) = r"
proof -
  have split: "[0..<n] = [0..<r] @ r # [Suc r..<n]"
    using assms(1) by (metis le0 less_imp_le_nat upt_add_eq_append upt_conv_Cons ordered_cancel_comm_monoid_diff_class.add_diff_inverse)
  have "filter P [Suc r..<n] = []"
    using assms(3) by (auto simp: filter_empty_conv)
  then show ?thesis using assms(2) by (simp add: split)
qed

lemma map_of_decode_assignments:
  assumes "r < length R" "where_eq_1 (m ! r) \<noteq> []"
    and "\<forall>r'<length R. r < r' \<longrightarrow> robot_name (R ! r') = robot_name (R ! r) \<longrightarrow>
           where_eq_1 (m ! r') = []"
  shows "map_of (decode_assignments R S m) (robot_name (R ! r)) = Some (S ! hd (where_eq_1 (m ! r)))"
proof -
  let ?P = "\<lambda>q. where_eq_1 (m ! q) \<noteq> [] \<and> robot_name (R ! q) = robot_name (R ! r)"
  have "filter ?P [0..<length R] \<noteq> [] \<and> last (filter ?P [0..<length R]) = r"
    by (rule last_filter_upt) (use assms in auto)
  then show ?thesis
    by (simp add: decode_assignments_def map_of_fold_decode)
qed

section \<open>The assignment polytope\<close>

text \<open>
  What \<^verbatim>\<open>linprog\<close> promises about a point it returns with \<^verbatim>\<open>success\<close>: it has one
  component per variable, satisfies \<^verbatim>\<open>A_ub @ x <= b_ub\<close> row by row, and lies within the
  bounds. \<open>lp_optimal\<close> adds that no feasible point has a smaller objective \<^verbatim>\<open>c @ x\<close>.
\<close>

definition dot :: "real list \<Rightarrow> real list \<Rightarrow> real" where
  "dot a x = sum_list (map2 (*) a x)"

definition lp_feasible ::
  "real list list \<Rightarrow> real list \<Rightarrow> (real \<times> real) list \<Rightarrow> real list \<Rightarrow> bool" where
  "lp_feasible A b bnds x \<longleftrightarrow>
     length x = length bnds
     \<and> list_all2 (\<lambda>row bi. dot row x \<le> bi) A b
     \<and> list_all2 (\<lambda>bnd xi. fst bnd \<le> xi \<and> xi \<le> snd bnd) bnds x"















lemma reshape_nth:
  assumes "reshape xs m n = Inr M" "r < m" "k < n"
  shows "length M = m" "length (M ! r) = n" "M ! r ! k = xs ! (r * n + k)"
proof -
  from assms(1) have len: "length xs = m * n" and M: "M = map (\<lambda>i. take n (drop (i * n) xs)) [0..<m]"
    by (auto simp: reshape_def split: if_splits)
  have "r * n + n \<le> m * n"
    using assms(2) by (metis Suc_leI mult_Suc mult_le_mono1 add.commute)
  then show "length M = m" "length (M ! r) = n" "M ! r ! k = xs ! (r * n + k)"
    using assms(2,3) len by (auto simp: M)
qed


lemma index_bound: "r < nr \<Longrightarrow> k < ns \<Longrightarrow> r * ns + k < nr * (ns::nat)"
proof -
  assume r: "r < nr" and k: "k < ns"
  have "r * ns + k < r * ns + ns" using k by simp
  also have "\<dots> = Suc r * ns" by simp
  also have "\<dots> \<le> nr * ns" using r by (intro mult_le_mono1) simp
  finally show ?thesis .
qed

lemma feasible_bounds:
  assumes "lp_feasible (A_ub nr ns) (b_ub nr ns) (bounds nr ns) x"
  shows "length x = nr * ns" and "i < nr * ns \<Longrightarrow> 0 \<le> x ! i \<and> x ! i \<le> 1"
proof -
  show len: "length x = nr * ns" using assms by (simp add: lp_feasible_def bounds_def)
  assume "i < nr * ns"
  moreover have "list_all2 (\<lambda>bnd xi. fst bnd \<le> xi \<and> xi \<le> snd bnd) (bounds nr ns) x"
    using assms by (simp add: lp_feasible_def)
  ultimately show "0 \<le> x ! i \<and> x ! i \<le> 1"
    by (auto simp: list_all2_conv_all_nth bounds_def)
qed


lemma set_update_subset: "set (AList.update k v al) \<subseteq> insert (k, v) (set al)"
  by (induction al) auto



lemma calculate_weights_nth:
  assumes "r < length robots" "k < length skills"
  shows "calculate_weights rand robots skills ! r ! k
         = weight_entry (rand r k) (robots ! r) (skills ! k)"
  using assms by (simp add: calculate_weights_def nth_enumerate_eq)



text \<open>The line \<^verbatim>\<open>result = linprog(c, A_ub=A_ub, b_ub=b_ub, bounds=bounds, method='highs')\<close>.\<close>

definition lp_call :: "lp_solver \<Rightarrow> (nat \<Rightarrow> nat \<Rightarrow> real) \<Rightarrow> robot list \<Rightarrow> skill list \<Rightarrow> lp_result" where
  "lp_call linprog rand robots executable_skills =
     linprog (map uminus (concat (calculate_weights rand robots executable_skills)))
       (A_ub (length robots) (length executable_skills))
       (b_ub (length robots) (length executable_skills))
       (bounds (length robots) (length executable_skills))"

lemma solve_task_allocation_eq:
  "solve_task_allocation linprog rand robots executable_skills =
     (if executable_skills = [] then Inr []
      else if \<not> success (lp_call linprog rand robots executable_skills) then Inr []
      else case reshape (map np_round (sol_x (lp_call linprog rand robots executable_skills)))
                  (length robots) (length executable_skills) of
             Inl e \<Rightarrow> Inl e
           | Inr assignment_matrix \<Rightarrow>
               Inr (decode_assignments robots executable_skills assignment_matrix))"
  by (simp add: solve_task_allocation_def lp_call_def Let_def)

lemma solve_task_allocation_decoded:
  assumes ne: "executable_skills \<noteq> []"
    and ok: "success (lp_call linprog rand robots executable_skills)"
    and len: "length (sol_x (lp_call linprog rand robots executable_skills))
                = length robots * length executable_skills"
  shows "\<exists>M. solve_task_allocation linprog rand robots executable_skills
                = Inr (decode_assignments robots executable_skills M)
           \<and> length M = length robots
           \<and> (\<forall>r<length robots. length (M ! r) = length executable_skills
                \<and> (\<forall>k<length executable_skills.
                      M ! r ! k = np_round (sol_x (lp_call linprog rand robots executable_skills)
                                     ! (r * length executable_skills + k))))"
proof -
  let ?nr = "length robots" and ?ns = "length executable_skills"
  let ?x = "sol_x (lp_call linprog rand robots executable_skills)"
  obtain M where M: "reshape (map np_round ?x) ?nr ?ns = Inr M"
    using len by (simp add: reshape_def)
  have sol: "solve_task_allocation linprog rand robots executable_skills
       = Inr (decode_assignments robots executable_skills M)"
    using ne ok M by (simp add: solve_task_allocation_eq)
  have ns: "0 < ?ns" using ne by simp
  have lenM: "length M = ?nr"
    using M len by (auto simp: reshape_def split: if_splits)
  have Mlen: "length (M ! r) = ?ns" if "r < ?nr" for r
    using reshape_nth(2)[OF M that ns] .
  have Mnth: "M ! r ! k = np_round (?x ! (r * ?ns + k))" if "r < ?nr" "k < ?ns" for r k
    using reshape_nth(3)[OF M that] index_bound[OF that] len by simp
  show ?thesis using sol lenM Mlen Mnth by blast
qed

section \<open>Feasibility of the returned assignment\<close>





text \<open>
  The decoder never looks at the weights: which pairs it returns is decided by the point
  the solver returns. Besides feasibility, the solver is taken to leave a variable whose
  objective coefficient is 0 at its lower bound: nothing is gained by raising it.
\<close>

definition lp_idle_at_lower :: "real list \<Rightarrow> (real \<times> real) list \<Rightarrow> real list \<Rightarrow> bool" where
  "lp_idle_at_lower c bnds x \<longleftrightarrow>
     list_all (\<lambda>(ci, bnd, xi). ci = 0 \<longrightarrow> xi = fst bnd) (zip c (zip bnds x))"

lemma idle_nth:
  assumes "lp_idle_at_lower c bnds x" "i < length c" "i < length bnds" "i < length x"
    "c ! i = 0"
  shows "x ! i = fst (bnds ! i)"
  using assms by (auto simp: lp_idle_at_lower_def list_all_length)

lemma concat_nth_uniform:
  assumes "\<forall>row\<in>set M. length row = n" "r < length M" "k < n"
  shows "concat M ! (r * n + k) = M ! r ! k"
  using assms
proof (induction M arbitrary: r)
  case Nil
  then show ?case by simp
next
  case (Cons row M)
  show ?case
  proof (cases r)
    case 0
    then show ?thesis using Cons.prems by (simp add: nth_append)
  next
    case (Suc r')
    have "concat (row # M) ! (r * n + k) = concat M ! (r' * n + k)"
      using Cons.prems Suc by (simp add: nth_append)
    also have "\<dots> = M ! r' ! k"
      using Cons.prems Suc by (intro Cons.IH) auto
    finally show ?thesis using Suc by simp
  qed
qed

lemma concat_length_uniform:
  assumes "\<forall>row\<in>set M. length row = n"
  shows "length (concat M) = length M * n"
  using assms by (induction M) auto

lemma calculate_weights_shape:
  "length (calculate_weights rand robots skills) = length robots"
  "\<forall>row\<in>set (calculate_weights rand robots skills). length row = length skills"
  by (auto simp: calculate_weights_def)

lemma cost_nth:
  assumes "r < length robots" "k < length skills"
  shows "map uminus (concat (calculate_weights rand robots skills)) ! (r * length skills + k)
         = - weight_entry (rand r k) (robots ! r) (skills ! k)"
proof -
  let ?W = "calculate_weights rand robots skills"
  have len: "length (concat ?W) = length robots * length skills"
    using concat_length_uniform[OF calculate_weights_shape(2)] calculate_weights_shape(1)
    by simp
  have i: "r * length skills + k < length (concat ?W)"
    using index_bound[OF assms] len by simp
  have "concat ?W ! (r * length skills + k) = ?W ! r ! k"
    using assms calculate_weights_shape by (intro concat_nth_uniform) auto
  then show ?thesis using i calculate_weights_nth[OF assms] by simp
qed

lemma cost_length:
  "length (map uminus (concat (calculate_weights rand robots skills)))
     = length robots * length skills"
  using concat_length_uniform[OF calculate_weights_shape(2)] calculate_weights_shape(1)
  by simp

lemma fold_decode_mem:
  assumes "p \<in> set (fold (decode_row R S m) rs a)"
  shows "p \<in> set a \<or> (\<exists>r\<in>set rs. where_eq_1 (m ! r) \<noteq> []
            \<and> fst p = robot_name (R ! r) \<and> snd p = S ! hd (where_eq_1 (m ! r)))"
  using assms
proof (induction rs arbitrary: a)
  case Nil
  then show ?case by simp
next
  case (Cons r rs)
  from Cons.prems have "p \<in> set (fold (decode_row R S m) rs (decode_row R S m r a))" by simp
  from Cons.IH[OF this] show ?case
  proof
    assume mem: "p \<in> set (decode_row R S m r a)"
    show ?thesis
    proof (cases "where_eq_1 (m ! r) = []")
      case True
      then show ?thesis using mem by (simp add: decode_row_def)
    next
      case False
      then have "decode_row R S m r a
          = AList.update (robot_name (R ! r)) (S ! hd (where_eq_1 (m ! r))) a"
        by (simp add: decode_row_def Let_def hd_conv_nth)
      with mem set_update_subset[of "robot_name (R ! r)" "S ! hd (where_eq_1 (m ! r))" a]
      have "p = (robot_name (R ! r), S ! hd (where_eq_1 (m ! r))) \<or> p \<in> set a" by auto
      then show ?thesis using False by auto
    qed
  next
    assume "\<exists>r\<in>set rs. where_eq_1 (m ! r) \<noteq> []
            \<and> fst p = robot_name (R ! r) \<and> snd p = S ! hd (where_eq_1 (m ! r))"
    then show ?thesis by auto
  qed
qed



lemma solve_task_allocation_keys_distinct:
  assumes "solve_task_allocation linprog rand robots executable_skills = Inr a"
  shows "distinct (map fst a)"
  using assms decode_assignments_distinct
  by (auto simp: solve_task_allocation_eq split: if_splits sum.splits)







section \<open>The dictionary that the allocator returns\<close>

text \<open>
  When the solver reports success with one value per pair (robot, skill), the matrix that
  \<^verbatim>\<open>reshape\<close> returns has one row per robot and one column per skill. The row index and the
  skill index that the decoder uses are then within range (\<open>decoder_indices_in_range\<close>), so
  that the \<^verbatim>\<open>IndexError\<close> of Python cannot occur in it, and \<open>decode_row\<close> needs no error
  branch; with any other number of values \<^verbatim>\<open>reshape\<close> raises \<^verbatim>\<open>ValueError\<close> before the
  decoder runs. The statements below are therefore about \<^verbatim>\<open>solve_task_allocation\<close>, not
  about the decoder on a matrix of arbitrary shape.
\<close>

lemma where_eq_1_bound: "k \<in> set (where_eq_1 row) \<Longrightarrow> k < length row"
  by (simp add: where_eq_1_def)

lemma decoder_indices_in_range:
  assumes "reshape xs (length robots) (length executable_skills) = Inr M"
    and "executable_skills \<noteq> []" and "r_idx < length robots"
  shows "r_idx < length M"
    and "\<forall>k\<in>set (where_eq_1 (M ! r_idx)). k < length executable_skills"
proof -
  have ns: "0 < length executable_skills" using assms(2) by simp
  show "r_idx < length M"
    using reshape_nth(1)[OF assms(1,3) ns] assms(3) by simp
  show "\<forall>k\<in>set (where_eq_1 (M ! r_idx)). k < length executable_skills"
    using reshape_nth(2)[OF assms(1,3) ns] where_eq_1_bound by fastforce
qed

lemma row_lookup:
  assumes l: "l < length R" and k: "k < length (M ! l)" and one: "M ! l ! k = 1"
    and later: "\<forall>l'<length R. l < l' \<and> robot_name (R ! l') = robot_name (R ! l)
                  \<longrightarrow> (\<forall>k'<length (M ! l'). M ! l' ! k' \<noteq> 1)"
  shows "\<exists>c\<le>k. M ! l ! c = 1 \<and> (\<forall>c'<c. M ! l ! c' \<noteq> 1)
           \<and> map_of (decode_assignments R S M) (robot_name (R ! l)) = Some (S ! c)"
proof -
  note h = where_eq_1_hd[OF k one]
  have lat: "\<forall>r'<length R. l < r' \<longrightarrow> robot_name (R ! r') = robot_name (R ! l) \<longrightarrow>
      where_eq_1 (M ! r') = []"
    using later by (auto simp: where_eq_1_def filter_empty_conv)
  have "map_of (decode_assignments R S M) (robot_name (R ! l))
         = Some (S ! hd (where_eq_1 (M ! l)))"
    using l h lat by (intro map_of_decode_assignments) blast+
  then show ?thesis using h by blast
qed

lemma last_filter_upt_ex:
  fixes n :: nat
  assumes "j < n" "P j"
  shows "\<exists>l. j \<le> l \<and> l < n \<and> P l \<and> (\<forall>l'<n. l < l' \<longrightarrow> \<not> P l')"
proof -
  let ?A = "{q. q < n \<and> P q}"
  have fin: "finite ?A" by (rule finite_subset[of _ "{..<n}"]) auto
  have ne: "?A \<noteq> {}" using assms by blast
  have mem: "Max ?A \<in> ?A" using Max_in[OF fin ne] .
  have "j \<le> Max ?A" using assms fin by (intro Max_ge) auto
  moreover have "\<not> P l'" if "l' < n" "Max ?A < l'" for l'
  proof
    assume "P l'"
    then have "l' \<in> ?A" using that by simp
    then have "l' \<le> Max ?A" using fin by (intro Max_ge) auto
    then show False using that by simp
  qed
  ultimately show ?thesis using mem by blast
qed

lemma np_round_0_1: "np_round 0 = 0" "np_round 1 = 1"
  by (simp_all add: np_round_def)

text \<open>
  Claim C9. Let the solver report success with one value per pair, let the row of robot \<open>r\<close>
  in the rounded matrix hold an entry 1 at column \<open>k\<close> (possibly among several), and let no
  later robot of the same name have an entry 1 in its row. Then \<^verbatim>\<open>solve_task_allocation\<close>
  returns a dictionary that maps the name of \<open>r\<close> to the skill at the lowest column \<open>j\<close> whose
  entry in that row is 1; the dictionary has at most one entry for a name; and it is a
  function of the rounded matrix: a solver answer with the same rounded values gives the
  same dictionary. Whatever a solver returns, a dictionary that \<^verbatim>\<open>solve_task_allocation\<close>
  returns has at most one entry for a name.
\<close>

theorem C9_lowest_column_selected:
  assumes ne: "executable_skills \<noteq> []"
    and ok: "success (lp_call linprog rand robots executable_skills)"
    and len: "length (sol_x (lp_call linprog rand robots executable_skills))
                = length robots * length executable_skills"
    and r: "r < length robots" and k: "k < length executable_skills"
    and one: "np_round (sol_x (lp_call linprog rand robots executable_skills)
                 ! (r * length executable_skills + k)) = 1"
    and later: "\<forall>r'<length robots. r < r' \<and> robot_name (robots ! r') = robot_name (robots ! r)
        \<longrightarrow> (\<forall>k'<length executable_skills.
               np_round (sol_x (lp_call linprog rand robots executable_skills)
                 ! (r' * length executable_skills + k')) \<noteq> 1)"
  shows "\<exists>a j. solve_task_allocation linprog rand robots executable_skills = Inr a
       \<and> j \<le> k
       \<and> np_round (sol_x (lp_call linprog rand robots executable_skills)
            ! (r * length executable_skills + j)) = 1
       \<and> (\<forall>i<j. np_round (sol_x (lp_call linprog rand robots executable_skills)
                     ! (r * length executable_skills + i)) \<noteq> 1)
       \<and> map_of a (robot_name (robots ! r)) = Some (executable_skills ! j)
       \<and> distinct (map fst a)
       \<and> (success (lp_call linprog' rand' robots executable_skills)
            \<and> map np_round (sol_x (lp_call linprog' rand' robots executable_skills))
                = map np_round (sol_x (lp_call linprog rand robots executable_skills))
          \<longrightarrow> solve_task_allocation linprog' rand' robots executable_skills = Inr a)
       \<and> (\<forall>a'. solve_task_allocation linprog' rand' robots executable_skills = Inr a'
            \<longrightarrow> distinct (map fst a'))"
proof -
  let ?ns = "length executable_skills"
  let ?x = "sol_x (lp_call linprog rand robots executable_skills)"
  from solve_task_allocation_decoded[OF ne ok len] obtain M where
    sol: "solve_task_allocation linprog rand robots executable_skills
            = Inr (decode_assignments robots executable_skills M)"
    and shape: "\<forall>r<length robots. length (M ! r) = ?ns
                \<and> (\<forall>k<?ns. M ! r ! k = np_round (?x ! (r * ?ns + k)))"
    by blast
  have k': "k < length (M ! r)" using shape r k by simp
  have one': "M ! r ! k = 1" using shape r k one by simp
  have later': "\<forall>l'<length robots. r < l' \<and> robot_name (robots ! l') = robot_name (robots ! r)
                  \<longrightarrow> (\<forall>k'<length (M ! l'). M ! l' ! k' \<noteq> 1)"
    using later shape by simp
  from row_lookup[OF r k' one' later', of executable_skills] obtain c where
    c: "c \<le> k" "M ! r ! c = 1" "\<forall>c'<c. M ! r ! c' \<noteq> 1"
      "map_of (decode_assignments robots executable_skills M) (robot_name (robots ! r))
         = Some (executable_skills ! c)"
    by blast
  have cns: "c < ?ns" using c(1) k by simp
  have c1: "np_round (?x ! (r * ?ns + c)) = 1" using shape r cns c(2) by simp
  have c2: "\<forall>i<c. np_round (?x ! (r * ?ns + i)) \<noteq> 1"
  proof (intro allI impI)
    fix i assume i: "i < c"
    then have "i < ?ns" using cns by simp
    then have "M ! r ! i = np_round (?x ! (r * ?ns + i))" using shape r by simp
    then show "np_round (?x ! (r * ?ns + i)) \<noteq> 1" using c(3) i by metis
  qed
  have det: "success (lp_call linprog' rand' robots executable_skills)
            \<and> map np_round (sol_x (lp_call linprog' rand' robots executable_skills))
                = map np_round ?x
          \<longrightarrow> solve_task_allocation linprog' rand' robots executable_skills
                = Inr (decode_assignments robots executable_skills M)"
    using sol ne ok by (auto simp: solve_task_allocation_eq)
  have any: "\<forall>a'. solve_task_allocation linprog' rand' robots executable_skills = Inr a'
            \<longrightarrow> distinct (map fst a')"
    using solve_task_allocation_keys_distinct by blast
  show ?thesis
    using sol c(1) c1 c2 c(4) decode_assignments_distinct det any by blast
qed

text \<open>One robot, two skills, and a solver answer with two entries 1 in the robot's row.\<close>

theorem C9_lowest_column_selected_witness:
  "\<exists>a. solve_task_allocation (\<lambda>c A b bnds. \<lparr>success = True, sol_x = [1, 1]\<rparr>) (\<lambda>r s. 1 / 2)
            [\<lparr>robot_name = ''Arm_Robot_1'', robot_type = ''arm_robot''\<rparr>]
            [''pick_and_place(red block, blue block)'', ''pick_and_place(green block, blue bowl)'']
          = Inr a
     \<and> map_of a ''Arm_Robot_1'' = Some ''pick_and_place(red block, blue block)''"
proof -
  let ?L = "\<lambda>(c :: real list) (A :: real list list) (b :: real list) (bnds :: (real \<times> real) list).
              \<lparr>success = True, sol_x = [1, 1]\<rparr>"
  let ?d = "\<lambda>(r :: nat) (s :: nat). 1 / 2 :: real"
  let ?R = "[\<lparr>robot_name = ''Arm_Robot_1'', robot_type = ''arm_robot''\<rparr>]"
  let ?S = "[''pick_and_place(red block, blue block)'', ''pick_and_place(green block, blue bowl)'']"
  have res: "lp_call ?L ?d ?R ?S = \<lparr>success = True, sol_x = [1, 1]\<rparr>"
    by (simp only: lp_call_def)
  have ne: "?S \<noteq> []" by simp
  have ok: "success (lp_call ?L ?d ?R ?S)" by (simp only: res lp_result.simps)
  have len: "length (sol_x (lp_call ?L ?d ?R ?S)) = length ?R * length ?S"
    by (simp add: res)
  have r: "0 < length ?R" and k: "1 < length ?S" by simp_all
  have one: "np_round (sol_x (lp_call ?L ?d ?R ?S) ! (0 * length ?S + 1)) = 1"
    by (simp add: res np_round_0_1)
  have later: "\<forall>r'<length ?R. 0 < r' \<and> robot_name (?R ! r') = robot_name (?R ! 0)
        \<longrightarrow> (\<forall>k'<length ?S. np_round (sol_x (lp_call ?L ?d ?R ?S) ! (r' * length ?S + k')) \<noteq> 1)"
    by simp
  from C9_lowest_column_selected[OF ne ok len r k one later] obtain a j where
    a: "solve_task_allocation ?L ?d ?R ?S = Inr a"
    and low: "\<forall>i<j. np_round (sol_x (lp_call ?L ?d ?R ?S) ! (0 * length ?S + i)) \<noteq> 1"
    and look: "map_of a (robot_name (?R ! 0)) = Some (?S ! j)"
    by blast
  have "j = 0"
  proof (rule ccontr)
    assume "j \<noteq> 0"
    then have "0 < j" by simp
    with low have "np_round (sol_x (lp_call ?L ?d ?R ?S) ! (0 * length ?S + 0)) \<noteq> 1" by blast
    then show False by (simp add: res np_round_0_1)
  qed
  with look have "map_of a ''Arm_Robot_1'' = Some ''pick_and_place(red block, blue block)''"
    by simp
  with a show ?thesis by blast
qed

text \<open>
  Without the condition on later robots of the same name the claim fails: both robots are
  named \<open>R\<close>, the row of the first is \<open>[1, 1, 0]\<close> and the row of the second \<open>[0, 0, 1]\<close>; the
  dictionary maps \<open>R\<close> to the third skill, not to the first.
\<close>

theorem C9_duplicate_name_counterexample:
  "solve_task_allocation (\<lambda>c A b bnds. \<lparr>success = True, sol_x = [1, 1, 0, 0, 0, 1]\<rparr>)
      (\<lambda>r s. 1 / 2)
      [\<lparr>robot_name = ''R'', robot_type = ''arm_robot''\<rparr>,
       \<lparr>robot_name = ''R'', robot_type = ''arm_robot''\<rparr>]
      [''a'', ''b'', ''c'']
     = Inr [(''R'', ''c'')]"
  by (simp add: solve_task_allocation_eq lp_call_def reshape_def np_round_0_1
        decode_assignments_def decode_row_def where_eq_1_def upt_rec)

text \<open>
  Claim C10. Let two robots \<open>i < j\<close> of the input list share a name, and let the rounded
  solution hold an entry 1 in the rows of both. Then the dictionary that
  \<^verbatim>\<open>solve_task_allocation\<close> returns has exactly one entry under that name: the skill at the
  lowest column with entry 1 in the row of the last robot \<open>l\<close> of that name whose row holds
  an entry 1. That robot is \<open>j\<close> or a later one, and it is \<open>j\<close> when no later robot of the name
  has an entry 1; what was written for \<open>i\<close> is overwritten. The keys of the dictionary are
  pairwise different names of robots of the list.
\<close>

theorem C10_later_robot_overwrites:
  assumes ne: "executable_skills \<noteq> []"
    and ok: "success (lp_call linprog rand robots executable_skills)"
    and len: "length (sol_x (lp_call linprog rand robots executable_skills))
                = length robots * length executable_skills"
    and ij: "i < j" and j: "j < length robots"
    and name: "robot_name (robots ! i) = robot_name (robots ! j)"
    and ki: "ki < length executable_skills"
    and onei: "np_round (sol_x (lp_call linprog rand robots executable_skills)
                 ! (i * length executable_skills + ki)) = 1"
    and kj: "kj < length executable_skills"
    and onej: "np_round (sol_x (lp_call linprog rand robots executable_skills)
                 ! (j * length executable_skills + kj)) = 1"
  shows "\<exists>a l c. solve_task_allocation linprog rand robots executable_skills = Inr a
       \<and> distinct (map fst a)
       \<and> fst ` set a \<subseteq> robot_name ` set robots
       \<and> j \<le> l \<and> l < length robots \<and> robot_name (robots ! l) = robot_name (robots ! j)
       \<and> c < length executable_skills
       \<and> np_round (sol_x (lp_call linprog rand robots executable_skills)
            ! (l * length executable_skills + c)) = 1
       \<and> (\<forall>c'<c. np_round (sol_x (lp_call linprog rand robots executable_skills)
                     ! (l * length executable_skills + c')) \<noteq> 1)
       \<and> (\<forall>s. (robot_name (robots ! i), s) \<in> set a \<longleftrightarrow> s = executable_skills ! c)
       \<and> ((\<forall>r'<length robots. j < r' \<and> robot_name (robots ! r') = robot_name (robots ! j)
             \<longrightarrow> (\<forall>k'<length executable_skills.
                    np_round (sol_x (lp_call linprog rand robots executable_skills)
                      ! (r' * length executable_skills + k')) \<noteq> 1))
          \<longrightarrow> l = j)"
proof -
  let ?ns = "length executable_skills"
  let ?x = "sol_x (lp_call linprog rand robots executable_skills)"
  let ?P = "\<lambda>q. robot_name (robots ! q) = robot_name (robots ! j)
                \<and> (\<exists>k<?ns. np_round (?x ! (q * ?ns + k)) = 1)"
  from solve_task_allocation_decoded[OF ne ok len] obtain M where
    sol: "solve_task_allocation linprog rand robots executable_skills
            = Inr (decode_assignments robots executable_skills M)"
    and shape: "\<forall>r<length robots. length (M ! r) = ?ns
                \<and> (\<forall>k<?ns. M ! r ! k = np_round (?x ! (r * ?ns + k)))"
    by blast
  let ?a = "decode_assignments robots executable_skills M"
  have Pj: "?P j" using kj onej by blast
  from last_filter_upt_ex[of j "length robots" ?P, OF j Pj] obtain l where
    l: "j \<le> l" "l < length robots" "?P l" "\<forall>l'<length robots. l < l' \<longrightarrow> \<not> ?P l'"
    by blast
  from l(3) obtain k where k: "k < ?ns" "np_round (?x ! (l * ?ns + k)) = 1" by blast
  have nl: "robot_name (robots ! l) = robot_name (robots ! j)" using l(3) by blast
  have k': "k < length (M ! l)" using shape l(2) k(1) by simp
  have one': "M ! l ! k = 1" using shape l(2) k by simp
  have later': "\<forall>l'<length robots. l < l' \<and> robot_name (robots ! l') = robot_name (robots ! l)
                  \<longrightarrow> (\<forall>k'<length (M ! l'). M ! l' ! k' \<noteq> 1)"
  proof (intro allI impI)
    fix l' k' assume a: "l' < length robots"
      "l < l' \<and> robot_name (robots ! l') = robot_name (robots ! l)" "k' < length (M ! l')"
    then have "\<not> ?P l'" using l(4) by blast
    then have "np_round (?x ! (l' * ?ns + k')) \<noteq> 1" using a shape nl by auto
    then show "M ! l' ! k' \<noteq> 1" using a shape by simp
  qed
  from row_lookup[OF l(2) k' one' later', of executable_skills] obtain c where
    c: "c \<le> k" "M ! l ! c = 1" "\<forall>c'<c. M ! l ! c' \<noteq> 1"
      "map_of ?a (robot_name (robots ! l)) = Some (executable_skills ! c)"
    by blast
  have cns: "c < ?ns" using c(1) k(1) by simp
  have c1: "np_round (?x ! (l * ?ns + c)) = 1" using shape l(2) cns c(2) by simp
  have c2: "\<forall>i<c. np_round (?x ! (l * ?ns + i)) \<noteq> 1"
  proof (intro allI impI)
    fix i assume i: "i < c"
    then have "i < ?ns" using cns by simp
    then have "M ! l ! i = np_round (?x ! (l * ?ns + i))" using shape l(2) by simp
    then show "np_round (?x ! (l * ?ns + i)) \<noteq> 1" using c(3) i by metis
  qed
  have d: "distinct (map fst ?a)" by (rule decode_assignments_distinct)
  have ent: "\<forall>s. (robot_name (robots ! i), s) \<in> set ?a \<longleftrightarrow> s = executable_skills ! c"
  proof
    fix s
    have "(robot_name (robots ! l), s) \<in> set ?a \<longleftrightarrow> map_of ?a (robot_name (robots ! l)) = Some s"
      using d by simp
    then show "(robot_name (robots ! i), s) \<in> set ?a \<longleftrightarrow> s = executable_skills ! c"
      using c(4) name nl by auto
  qed
  have lj: "l = j"
    if "\<forall>r'<length robots. j < r' \<and> robot_name (robots ! r') = robot_name (robots ! j)
             \<longrightarrow> (\<forall>k'<?ns. np_round (?x ! (r' * ?ns + k')) \<noteq> 1)"
  proof (rule ccontr)
    assume "l \<noteq> j"
    then have "j < l" using l(1) by simp
    then show False using that l(2) nl k by blast
  qed
  show ?thesis
    using sol d decode_assignments_keys[of robots executable_skills M] l(1,2) nl cns c1 c2 ent lj
    by blast
qed

text \<open>Two robots named \<open>R\<close>, the first assigned the first skill and the second the second.\<close>

theorem C10_later_robot_overwrites_witness:
  "\<exists>a. solve_task_allocation (\<lambda>c A b bnds. \<lparr>success = True, sol_x = [1, 0, 0, 1]\<rparr>)
          (\<lambda>r s. 1 / 2)
          [\<lparr>robot_name = ''R'', robot_type = ''arm_robot''\<rparr>,
           \<lparr>robot_name = ''R'', robot_type = ''arm_robot''\<rparr>]
          [''pick_and_place(red block, blue block)'', ''pick_and_place(green block, blue bowl)'']
        = Inr a
     \<and> distinct (map fst a)
     \<and> (\<forall>s. (''R'', s) \<in> set a \<longleftrightarrow> s = ''pick_and_place(green block, blue bowl)'')"
proof -
  let ?L = "\<lambda>(c :: real list) (A :: real list list) (b :: real list) (bnds :: (real \<times> real) list).
              \<lparr>success = True, sol_x = [1, 0, 0, 1]\<rparr>"
  let ?d = "\<lambda>(r :: nat) (s :: nat). 1 / 2 :: real"
  let ?R = "[\<lparr>robot_name = ''R'', robot_type = ''arm_robot''\<rparr>,
             \<lparr>robot_name = ''R'', robot_type = ''arm_robot''\<rparr>]"
  let ?S = "[''pick_and_place(red block, blue block)'', ''pick_and_place(green block, blue bowl)'']"
  have res: "lp_call ?L ?d ?R ?S = \<lparr>success = True, sol_x = [1, 0, 0, 1]\<rparr>"
    by (simp only: lp_call_def)
  have ne: "?S \<noteq> []" by simp
  have ok: "success (lp_call ?L ?d ?R ?S)" by (simp only: res lp_result.simps)
  have len: "length (sol_x (lp_call ?L ?d ?R ?S)) = length ?R * length ?S"
    by (simp add: res)
  have ij: "(0::nat) < 1" and j: "1 < length ?R" by simp_all
  have name: "robot_name (?R ! 0) = robot_name (?R ! 1)" by simp
  have ki: "0 < length ?S" and kj: "1 < length ?S" by simp_all
  have onei: "np_round (sol_x (lp_call ?L ?d ?R ?S) ! (0 * length ?S + 0)) = 1"
    by (simp add: res np_round_0_1)
  have onej: "np_round (sol_x (lp_call ?L ?d ?R ?S) ! (1 * length ?S + 1)) = 1"
    by (simp add: res np_round_0_1)
  from C10_later_robot_overwrites[OF ne ok len ij j name ki onei kj onej]
  show ?thesis
  proof (elim exE conjE)
    fix a l c
    assume a: "solve_task_allocation ?L ?d ?R ?S = Inr a" "distinct (map fst a)"
      and l: "1 \<le> l" "l < length ?R" and c: "c < length ?S"
      and one: "np_round (sol_x (lp_call ?L ?d ?R ?S) ! (l * length ?S + c)) = 1"
      and ent: "\<forall>s. ((robot_name (?R ! 0), s) \<in> set a) = (s = ?S ! c)"
    have l1: "l = 1" using l by simp
    have "c = 1"
    proof (rule ccontr)
      assume "c \<noteq> 1"
      then have "c = 0" using c by simp
      with one l1 show False by (simp add: res np_round_0_1)
    qed
    with ent have "\<forall>s. (''R'', s) \<in> set a \<longleftrightarrow> s = ''pick_and_place(green block, blue bowl)''"
      by simp
    with a show ?thesis by blast
  qed
qed

section \<open>Parsing the oracle's dependencies\<close>

text \<open>
  \<^verbatim>\<open>parse_dependencies\<close> works on the text of the oracle's response. Strings are byte
  strings here: \<open>is_digit\<close> and \<open>is_space\<close> are what \<^verbatim>\<open>\d\<close> and \<^verbatim>\<open>\s\<close> match among the
  ASCII characters (digits and white space outside ASCII are not modelled).
\<close>

definition is_digit :: "char \<Rightarrow> bool" where
  "is_digit c \<longleftrightarrow> c \<in> set ''0123456789''"

definition is_space :: "char \<Rightarrow> bool" where
  "is_space c \<longleftrightarrow> c \<in> set [CHR 0x09, CHR 0x0A, CHR 0x0B, CHR 0x0C, CHR 0x0D,
       CHR 0x1C, CHR 0x1D, CHR 0x1E, CHR 0x1F, CHR '' '']"

definition digit_val :: "char \<Rightarrow> nat" where
  "digit_val c = of_char c - 48"

definition int_of_digits :: "string \<Rightarrow> int" where
  "int_of_digits ds = int (fold (\<lambda>c n. 10 * n + digit_val c) ds 0)"

text \<open>
  \<^verbatim>\<open>response_text.split("Dependencies:")[1]\<close> is the text after the first occurrence of
  the separator, up to its next occurrence.
\<close>

fun after_first :: "string \<Rightarrow> string \<Rightarrow> string" where
  "after_first sep [] = []"
| "after_first sep (c # cs) =
     (if starts_with sep (c # cs) then drop (length sep) (c # cs) else after_first sep cs)"

fun before_first :: "string \<Rightarrow> string \<Rightarrow> string" where
  "before_first sep [] = []"
| "before_first sep (c # cs) =
     (if starts_with sep (c # cs) then [] else c # before_first sep cs)"

text \<open>
  One attempt to match \<^verbatim>\<open>(\d+)\s*->\s*(\d+)\<close> at the start of \<open>s\<close>: the two groups and the
  text after the match. Each repetition is greedy, and giving characters back never helps
  this pattern (the character after a maximal run of digits is no digit, after a maximal
  run of white space no white space), so the first try decides.
\<close>

definition match_at :: "string \<Rightarrow> (string \<times> string \<times> string) option" where
  "match_at s =
     (let pred_idx = takeWhile is_digit s;
          s1 = dropWhile is_space (dropWhile is_digit s)
      in if pred_idx = [] \<or> \<not> starts_with ''->'' s1 then None
         else
           let s2 = dropWhile is_space (drop 2 s1);
               succ_idx = takeWhile is_digit s2
           in if succ_idx = [] then None
              else Some (pred_idx, succ_idx, dropWhile is_digit s2))"

lemma match_at_shorter: "match_at s = Some (a, b, rest) \<Longrightarrow> length rest < length s"
proof -
  assume m: "match_at s = Some (a, b, rest)"
  let ?s1 = "dropWhile is_space (dropWhile is_digit s)"
  let ?s2 = "dropWhile is_space (drop 2 ?s1)"
  from m have ne: "takeWhile is_digit s \<noteq> []" and rest: "rest = dropWhile is_digit ?s2"
    by (auto simp: match_at_def Let_def split: if_splits)
  have "length rest \<le> length ?s2" unfolding rest by (rule length_dropWhile_le)
  also have "\<dots> \<le> length (drop 2 ?s1)" by (rule length_dropWhile_le)
  also have "\<dots> \<le> length ?s1" by simp
  also have "\<dots> \<le> length (dropWhile is_digit s)" by (rule length_dropWhile_le)
  also have "\<dots> < length s"
    using ne by (cases s) (auto simp: le_imp_less_Suc length_dropWhile_le split: if_splits)
  finally show ?thesis .
qed

text \<open>\<^verbatim>\<open>findall\<close> scans from the left and resumes after each match.\<close>

function findall :: "string \<Rightarrow> (string \<times> string) list" where
  "findall s =
     (if s = [] then []
      else case match_at s of
             Some (pred_idx, succ_idx, rest) \<Rightarrow> (pred_idx, succ_idx) # findall rest
           | None \<Rightarrow> findall (tl s))"
  by pat_completeness auto
termination
  by (relation "measure length") (auto simp: match_at_shorter)

text \<open>Python list indexing: a negative index counts from the end, out of range raises.\<close>

definition py_index :: "'a list \<Rightarrow> int \<Rightarrow> error + 'a" where
  "py_index xs i =
     (let n = int (length xs); j = (if i < 0 then n + i else i)
      in if 0 \<le> j \<and> j < n then Inr (xs ! nat j) else Inl IndexError)"

fun edges_of_matches :: "skill list \<Rightarrow> (string \<times> string) list \<Rightarrow> error + (skill \<times> skill) list" where
  "edges_of_matches skill_list [] = Inr []"
| "edges_of_matches skill_list ((pred_idx, succ_idx) # matches) =
     (case py_index skill_list (int_of_digits pred_idx - 1) of
        Inl e \<Rightarrow> Inl e
      | Inr u \<Rightarrow>
          (case py_index skill_list (int_of_digits succ_idx - 1) of
             Inl e \<Rightarrow> Inl e
           | Inr v \<Rightarrow>
               (case edges_of_matches skill_list matches of
                  Inl e \<Rightarrow> Inl e
                | Inr es \<Rightarrow> Inr ((u, v) # es))))"

definition parse_dependencies :: "string \<Rightarrow> skill list \<Rightarrow> error + (skill \<times> skill) list" where
  "parse_dependencies response_text skill_list =
     (if is_in ''Dependencies:'' response_text
      then let dependency_section =
                 before_first ''Dependencies:'' (after_first ''Dependencies:'' response_text);
               matches = findall dependency_section
           in edges_of_matches skill_list matches
      else Inr [])"

section \<open>The graph builder\<close>

text \<open>
  \<^verbatim>\<open>nx.is_directed_acyclic_graph\<close> peels off the nodes of in-degree 0, generation by
  generation, and answers whether every node is reached; a graph of \<open>n\<close> nodes needs at
  most \<open>n\<close> generations.
\<close>

fun topological_generations :: "nat \<Rightarrow> digraph \<Rightarrow> bool" where
  "topological_generations 0 g = (nodes g = [])"
| "topological_generations (Suc n) g =
     (if nodes g = [] then True
      else let zero_indegree = get_executable_skills g
           in if zero_indegree = [] then False
              else topological_generations n (remove_nodes_from zero_indegree g))"

definition is_directed_acyclic_graph :: "digraph \<Rightarrow> bool" where
  "is_directed_acyclic_graph g = topological_generations (length (nodes g)) g"

text \<open>
  The dependency oracle is a parameter: \<open>oracle attempt skill_list\<close> is the text of the
  response to the request of that attempt, or the exception it raises. The body of the
  \<^verbatim>\<open>try\<close> block builds a fresh graph; any exception in it ends the builder with the empty
  graph.
\<close>

type_synonym dependency_oracle = "nat \<Rightarrow> skill list \<Rightarrow> error + string"

definition attempt_graph :: "string \<Rightarrow> skill list \<Rightarrow> error + digraph" where
  "attempt_graph response_text skill_list =
     (let graph = add_nodes_from skill_list DiGraph
      in case parse_dependencies response_text skill_list of
           Inl e \<Rightarrow> Inl e
         | Inr es \<Rightarrow> Inr (add_edges_from es graph))"

fun attempts :: "dependency_oracle \<Rightarrow> skill list \<Rightarrow> nat list \<Rightarrow> digraph" where
  "attempts oracle skill_list [] = DiGraph"
| "attempts oracle skill_list (attempt # rest) =
     (case oracle attempt skill_list of
        Inl e \<Rightarrow> DiGraph
      | Inr response_text \<Rightarrow>
          (case attempt_graph response_text skill_list of
             Inl e \<Rightarrow> DiGraph
           | Inr graph \<Rightarrow>
               if is_directed_acyclic_graph graph then graph
               else attempts oracle skill_list rest))"

definition generate_dependency_graph :: "dependency_oracle \<Rightarrow> skill list \<Rightarrow> digraph" where
  "generate_dependency_graph oracle skill_list =
     (if skill_list = [] then DiGraph else attempts oracle skill_list [0..<3])"

section \<open>Acyclic graphs and the acyclicity test\<close>

text \<open>
  The invariant of a \<^verbatim>\<open>DiGraph\<close>: every node is stored once and both ends of every edge
  are nodes. Every operation of the model keeps it.
\<close>

definition wf_digraph :: "digraph \<Rightarrow> bool" where
  "wf_digraph g \<longleftrightarrow>
     distinct (nodes g) \<and> (\<forall>e\<in>set (edges g). fst e \<in> set (nodes g) \<and> snd e \<in> set (nodes g))"

lemma wf_DiGraph: "wf_digraph DiGraph"
  by (simp add: wf_digraph_def DiGraph_def)

lemma nodes_add_node: "set (nodes (add_node n g)) = insert n (set (nodes g))"
  by (auto simp: add_node_def)

lemma edges_add_node: "edges (add_node n g) = edges g"
  by (simp add: add_node_def)

lemma wf_add_node: "wf_digraph g \<Longrightarrow> wf_digraph (add_node n g)"
  by (auto simp: wf_digraph_def add_node_def)

lemma wf_add_nodes_from: "wf_digraph g \<Longrightarrow> wf_digraph (add_nodes_from ns g)"
  unfolding add_nodes_from_def by (induction ns arbitrary: g) (simp_all add: wf_add_node)

lemma nodes_add_nodes_from: "set (nodes (add_nodes_from ns g)) = set (nodes g) \<union> set ns"
  unfolding add_nodes_from_def by (induction ns arbitrary: g) (auto simp: nodes_add_node)

lemma edges_add_nodes_from: "edges (add_nodes_from ns g) = edges g"
  unfolding add_nodes_from_def by (induction ns arbitrary: g) (simp_all add: edges_add_node)

lemma nodes_add_edge: "set (nodes (add_edge e g)) = insert (fst e) (insert (snd e) (set (nodes g)))"
  by (auto simp: add_edge_def Let_def nodes_add_node)

lemma edges_add_edge: "set (edges (add_edge e g)) = insert e (set (edges g))"
  by (auto simp: add_edge_def Let_def edges_add_node)

lemma wf_add_edge: "wf_digraph g \<Longrightarrow> wf_digraph (add_edge e g)"
proof -
  assume "wf_digraph g"
  then have w: "wf_digraph (add_node (snd e) (add_node (fst e) g))"
    by (intro wf_add_node)
  have n: "fst e \<in> set (nodes (add_node (snd e) (add_node (fst e) g)))"
    "snd e \<in> set (nodes (add_node (snd e) (add_node (fst e) g)))"
    by (simp_all add: nodes_add_node)
  show ?thesis using w n by (auto simp: add_edge_def Let_def wf_digraph_def)
qed

lemma wf_add_edges_from: "wf_digraph g \<Longrightarrow> wf_digraph (add_edges_from es g)"
  unfolding add_edges_from_def by (induction es arbitrary: g) (simp_all add: wf_add_edge)

lemma edges_add_edges_from: "set (edges (add_edges_from es g)) = set (edges g) \<union> set es"
  unfolding add_edges_from_def by (induction es arbitrary: g) (auto simp: edges_add_edge)

lemma nodes_add_edges_from:
  "set (nodes (add_edges_from es g)) = set (nodes g) \<union> fst ` set es \<union> snd ` set es"
  unfolding add_edges_from_def by (induction es arbitrary: g) (auto simp: nodes_add_edge)

lemma wf_remove_nodes_from: "wf_digraph g \<Longrightarrow> wf_digraph (remove_nodes_from ns g)"
  by (auto simp: wf_digraph_def remove_nodes_from_def)

lemma edges_remove_subset: "set (edges (remove_nodes_from ns g)) \<subseteq> set (edges g)"
  by (auto simp: remove_nodes_from_def)

lemma acyclic_remove_nodes_from:
  "acyclic (set (edges g)) \<Longrightarrow> acyclic (set (edges (remove_nodes_from ns g)))"
  by (erule acyclic_subset) (rule edges_remove_subset)

lemma frontier_nonempty:
  assumes wf: "wf_digraph g" and ac: "acyclic (set (edges g))" and ne: "nodes g \<noteq> []"
  shows "get_executable_skills g \<noteq> []"
proof -
  have "wf (set (edges g))" using ac by (intro finite_acyclic_wf) simp_all
  moreover from ne obtain x where "x \<in> set (nodes g)" by (cases "nodes g") auto
  ultimately obtain z where z: "z \<in> set (nodes g)"
    and min: "\<And>y. (y, z) \<in> set (edges g) \<Longrightarrow> y \<notin> set (nodes g)"
    by (rule wfE_min) blast
  have "in_degree g z = 0"
    unfolding in_degree_zero_iff using min wf by (force simp: wf_digraph_def)
  then have "z \<in> set (get_executable_skills g)"
    using z by (simp add: get_executable_skills_eq)
  then show ?thesis by auto
qed

lemma length_remove_nodes_less:
  assumes "set ns \<inter> set (nodes g) \<noteq> {}"
  shows "length (nodes (remove_nodes_from ns g)) < length (nodes g)"
proof -
  from assms obtain n where n: "n \<in> set ns" "n \<in> set (nodes g)" by auto
  have "length (filter (\<lambda>n. n \<notin> set ns) (nodes g)) < length (nodes g)"
    by (rule length_filter_less[of n]) (use n in auto)
  then show ?thesis by (simp add: remove_nodes_from_def)
qed

lemma frontier_subset_nodes: "set (get_executable_skills g) \<subseteq> set (nodes g)"
  by (auto simp: get_executable_skills_eq)

lemma acyclic_imp_topological:
  "wf_digraph g \<Longrightarrow> acyclic (set (edges g)) \<Longrightarrow> length (nodes g) \<le> n \<Longrightarrow>
   topological_generations n g"
proof (induction n arbitrary: g)
  case 0
  then show ?case by simp
next
  case (Suc n)
  show ?case
  proof (cases "nodes g = []")
    case True
    then show ?thesis by simp
  next
    case False
    let ?z = "get_executable_skills g"
    have z: "?z \<noteq> []" using frontier_nonempty[OF Suc.prems(1,2) False] .
    then have "set ?z \<inter> set (nodes g) \<noteq> {}"
      using frontier_subset_nodes[of g] by (cases ?z) auto
    from length_remove_nodes_less[OF this] Suc.prems(3)
    have "length (nodes (remove_nodes_from ?z g)) \<le> n" by simp
    then have "topological_generations n (remove_nodes_from ?z g)"
      by (intro Suc.IH wf_remove_nodes_from acyclic_remove_nodes_from Suc.prems)
    then show ?thesis using False z by (simp add: Let_def)
  qed
qed

lemma trancl_avoids_frontier:
  assumes "(a, b) \<in> (set (edges g))\<^sup>+" and "a \<notin> set (get_executable_skills g)"
  shows "(a, b) \<in> (set (edges (remove_nodes_from (get_executable_skills g) g)))\<^sup>+
         \<and> b \<notin> set (get_executable_skills g)"
  using assms
proof (induction rule: trancl_induct)
  case (base y)
  then have "y \<notin> set (get_executable_skills g)"
    by (auto simp: get_executable_skills_eq in_degree_zero_iff)
  then show ?case using base by (auto simp: remove_nodes_from_def)
next
  case (step y z)
  then have y: "y \<notin> set (get_executable_skills g)" by simp
  have z: "z \<notin> set (get_executable_skills g)"
    using step(2) by (auto simp: get_executable_skills_eq in_degree_zero_iff)
  have "(y, z) \<in> set (edges (remove_nodes_from (get_executable_skills g) g))"
    using step(2) y z by (auto simp: remove_nodes_from_def)
  then show ?case using step z by (auto intro: trancl_into_trancl)
qed

lemma topological_imp_acyclic:
  "wf_digraph g \<Longrightarrow> topological_generations n g \<Longrightarrow> acyclic (set (edges g))"
proof (induction n arbitrary: g)
  case 0
  then have "edges g = []" by (cases "edges g") (auto simp: wf_digraph_def)
  then show ?case by (simp add: acyclic_def)
next
  case (Suc n)
  show ?case
  proof (cases "nodes g = []")
    case True
    with Suc.prems(1) have "edges g = []" by (cases "edges g") (auto simp: wf_digraph_def)
    then show ?thesis by (simp add: acyclic_def)
  next
    case False
    let ?z = "get_executable_skills g"
    from Suc.prems(2) False have z: "?z \<noteq> []"
      and t: "topological_generations n (remove_nodes_from ?z g)"
      by (auto simp: Let_def split: if_splits)
    have ac': "acyclic (set (edges (remove_nodes_from ?z g)))"
      by (intro Suc.IH wf_remove_nodes_from Suc.prems(1) t)
    show ?thesis
    proof (rule acyclicI, intro allI notI)
      fix x assume x: "(x, x) \<in> (set (edges g))\<^sup>+"
      then obtain y where "(y, x) \<in> set (edges g)" by (meson tranclE)
      then have "x \<notin> set ?z" by (auto simp: get_executable_skills_eq in_degree_zero_iff)
      from trancl_avoids_frontier[OF x this] ac' show False by (auto simp: acyclic_def)
    qed
  qed
qed

lemma is_dag_iff:
  "wf_digraph g \<Longrightarrow> is_directed_acyclic_graph g \<longleftrightarrow> acyclic (set (edges g))"
  unfolding is_directed_acyclic_graph_def
  using acyclic_imp_topological topological_imp_acyclic by blast

section \<open>The skill list generator\<close>

text \<open>
  \<^verbatim>\<open>get_skill_set\<close> lists the predefined skills. The decomposition oracle is a parameter:
  \<open>ask instruction generated candidates\<close> is the text of the model's response, or the
  exception it raises.
\<close>

definition OBJECTS :: "string list" where
  "OBJECTS = [''red block'', ''blue block'', ''green block'', ''yellow block'', ''blue bowl'']"

definition LOCATIONS :: "string list" where
  "LOCATIONS = [''middle of the table'', ''corner of the table'', ''red block'', ''blue block'',
     ''green block'', ''yellow block'', ''blue bowl'']"

definition get_skill_set :: "skill list" where
  "get_skill_set =
     concat (map (\<lambda>obj. map (\<lambda>loc. ''pick_and_place('' @ obj @ '', '' @ loc @ '')'')
                          (filter (\<lambda>loc. obj \<noteq> loc) LOCATIONS)) OBJECTS)
     @ [''transport(table)''] @ [''done'']"

type_synonym skill_oracle = "string \<Rightarrow> skill list \<Rightarrow> skill list \<Rightarrow> error + string"

text \<open>\<^verbatim>\<open>str.strip()\<close> removes leading and trailing white space.\<close>

definition strip :: "string \<Rightarrow> string" where
  "strip s = rev (dropWhile is_space (rev (dropWhile is_space s)))"

definition choose_best_skill ::
  "skill_oracle \<Rightarrow> string \<Rightarrow> skill list \<Rightarrow> skill list \<Rightarrow> skill option" where
  "choose_best_skill ask instruction generated_skills skill_set =
     (case ask instruction generated_skills skill_set of
        Inl e \<Rightarrow> None
      | Inr response_text \<Rightarrow>
          (let chosen_skill = strip response_text
           in if chosen_skill \<in> set skill_set then Some chosen_skill else None))"

function generate_skill_loop ::
  "skill_oracle \<Rightarrow> string \<Rightarrow> skill list \<Rightarrow> skill list \<Rightarrow> skill list" where
  "generate_skill_loop ask instruction generated_skills remaining_skills =
     (case choose_best_skill ask instruction generated_skills remaining_skills of
        None \<Rightarrow> generated_skills
      | Some best_skill \<Rightarrow>
          if best_skill = ''done'' then generated_skills
          else generate_skill_loop ask instruction (generated_skills @ [best_skill])
                 (if best_skill \<in> set remaining_skills then remove1 best_skill remaining_skills
                  else remaining_skills))"
  by pat_completeness auto
termination
proof (relation "measure (\<lambda>(ask, instruction, generated_skills, remaining_skills).
    length remaining_skills)")
  show "wf (measure (\<lambda>(ask, instruction, generated_skills, remaining_skills).
    length remaining_skills))" by simp
next
  fix ask :: skill_oracle and instruction generated_skills remaining_skills best_skill
  assume "choose_best_skill ask instruction generated_skills remaining_skills = Some best_skill"
  then have mem: "best_skill \<in> set remaining_skills"
    by (auto simp: choose_best_skill_def Let_def split: sum.splits if_splits)
  then have "0 < length remaining_skills"
    by (rule length_pos_if_in_set)
  with mem have "length (remove1 best_skill remaining_skills) < length remaining_skills"
    by (simp add: length_remove1)
  with mem show "((ask, instruction, generated_skills @ [best_skill],
        if best_skill \<in> set remaining_skills then remove1 best_skill remaining_skills
        else remaining_skills),
       ask, instruction, generated_skills, remaining_skills)
      \<in> measure (\<lambda>(ask, instruction, generated_skills, remaining_skills).
           length remaining_skills)"
    by simp
qed

definition generate_skill_list :: "skill_oracle \<Rightarrow> string \<Rightarrow> skill list \<Rightarrow> skill list" where
  "generate_skill_list ask instruction skill_set =
     generate_skill_loop ask instruction [] skill_set"

section \<open>The plan driver\<close>

text \<open>
  What \<^verbatim>\<open>main_planner\<close> prints is modelled as the list of its \<^verbatim>\<open>print\<close> calls, one event
  each (the prints inside the functions it calls are not part of the list). A run either
  returns, or an exception leaves it; a run that never ends has no outcome (\<open>None\<close>).
  \<open>rand n r s\<close> is the random draw of round \<open>n\<close> for the pair (robot \<open>r\<close>, skill \<open>s\<close>).
\<close>

datatype event =
    ProcessingInstruction string
  | SkillListAbort
  | SkillListHeader
  | SkillLine nat skill
  | GraphHeader
  | GraphAbort
  | DependenciesLine "(skill \<times> skill) list"
  | SimulationHeader
  | StepHeader nat
  | ExecutableSkills "skill list"
  | NoExecutableSkillsError
  | AssignmentsLine assignment
  | WaitingLine
  | CompletedTasks "skill list"
  | RemainingTasks nat
  | PlanningComplete

datatype 'a outcome = Returned 'a "event list" | Raised error "event list"

text \<open>
  The \<^verbatim>\<open>while\<close> loop of step 3. It is left when the graph has no node, or by the \<^verbatim>\<open>break\<close>
  after the error message; its value is the state the code has after the loop: the step
  counter, the graph and the output so far.
\<close>

partial_function (option) allocation_loop ::
  "lp_solver \<Rightarrow> (nat \<Rightarrow> nat \<Rightarrow> nat \<Rightarrow> real) \<Rightarrow> robot list \<Rightarrow> nat \<Rightarrow> digraph \<Rightarrow> event list
     \<Rightarrow> (nat \<times> digraph) outcome option" where
  "allocation_loop linprog rand robots step_counter graph out =
     (if 0 < number_of_nodes graph then
        (let step_counter = step_counter + 1;
             executable_skills = get_executable_skills graph;
             out = out @ [StepHeader step_counter, ExecutableSkills executable_skills]
         in if executable_skills = []
            then Some (Returned (step_counter, graph) (out @ [NoExecutableSkillsError]))
            else
              (case solve_task_allocation linprog (rand step_counter) robots executable_skills of
                 Inl e \<Rightarrow> Some (Raised e out)
               | Inr assignments \<Rightarrow>
                   (let out = out @ [AssignmentsLine assignments];
                        completed_tasks = map snd assignments
                    in if completed_tasks = []
                       then allocation_loop linprog rand robots step_counter graph
                              (out @ [WaitingLine])
                       else
                         (let graph = remove_nodes_from completed_tasks graph
                          in allocation_loop linprog rand robots step_counter graph
                               (out @ [CompletedTasks completed_tasks,
                                       RemainingTasks (length (nodes graph))])))))
      else Some (Returned (step_counter, graph) out))"

text \<open>Step 3 of \<^verbatim>\<open>main_planner\<close>: the loop and the line printed after it.\<close>

definition simulate_allocation ::
  "lp_solver \<Rightarrow> (nat \<Rightarrow> nat \<Rightarrow> nat \<Rightarrow> real) \<Rightarrow> robot list \<Rightarrow> digraph \<Rightarrow> event list
     \<Rightarrow> unit outcome option" where
  "simulate_allocation linprog rand robots graph out =
     (case allocation_loop linprog rand robots 0 graph (out @ [SimulationHeader]) of
        None \<Rightarrow> None
      | Some (Raised e out) \<Rightarrow> Some (Raised e out)
      | Some (Returned final out) \<Rightarrow> Some (Returned () (out @ [PlanningComplete])))"

definition main_planner ::
  "skill_oracle \<Rightarrow> dependency_oracle \<Rightarrow> lp_solver \<Rightarrow> (nat \<Rightarrow> nat \<Rightarrow> nat \<Rightarrow> real)
     \<Rightarrow> string \<Rightarrow> robot list \<Rightarrow> unit outcome option" where
  "main_planner ask oracle linprog rand instruction robots =
     (let out = [ProcessingInstruction instruction];
          skill_set = get_skill_set;
          skill_list = generate_skill_list ask instruction skill_set
      in if skill_list = [] then Some (Returned () (out @ [SkillListAbort]))
         else
           (let out = out @ [SkillListHeader]
                      @ map (\<lambda>(i, skill). SkillLine i skill) (enumerate 1 skill_list)
                      @ [GraphHeader];
                graph = generate_dependency_graph oracle skill_list
            in if nodes graph = [] then Some (Returned () (out @ [GraphAbort]))
               else simulate_allocation linprog rand robots graph
                      (out @ [DependenciesLine (edges graph)])))"

section \<open>What the builder does with the oracle's edges\<close>


definition dependency_matches :: "string \<Rightarrow> (string \<times> string) list" where
  "dependency_matches response_text =
     (if is_in ''Dependencies:'' response_text
      then findall (before_first ''Dependencies:'' (after_first ''Dependencies:'' response_text))
      else [])"

definition index_of :: "string \<Rightarrow> nat" where
  "index_of ds = nat (int_of_digits ds)"

definition skill_at :: "skill list \<Rightarrow> string \<Rightarrow> skill" where
  "skill_at skill_list ds =
     (if index_of ds = 0 then last skill_list else skill_list ! (index_of ds - 1))"

lemma parse_dependencies_eq:
  "parse_dependencies response_text skill_list
     = edges_of_matches skill_list (dependency_matches response_text)"
  by (simp add: parse_dependencies_def dependency_matches_def Let_def)

lemma py_index_skill:
  assumes "skill_list \<noteq> []"
  shows "py_index skill_list (int_of_digits ds - 1)
     = (if index_of ds \<le> length skill_list then Inr (skill_at skill_list ds) else Inl IndexError)"
proof -
  have nn: "0 \<le> int_of_digits ds" by (simp add: int_of_digits_def)
  then have n: "int_of_digits ds = int (index_of ds)" by (simp add: index_of_def)
  have len: "0 < length skill_list" using assms by simp
  have sub: "nat (int k - 1) = k - 1" for k :: nat by (cases k) simp_all
  show ?thesis
  proof (cases "index_of ds = 0")
    case True
    then show ?thesis
      using len assms by (simp add: py_index_def n skill_at_def last_conv_nth sub)
  next
    case False
    then show ?thesis
      by (auto simp: py_index_def n skill_at_def sub)
  qed
qed

lemma skill_at_in_set:
  "skill_list \<noteq> [] \<Longrightarrow> index_of ds \<le> length skill_list \<Longrightarrow> skill_at skill_list ds \<in> set skill_list"
  by (auto simp: skill_at_def)

lemma edges_of_matches_eq:
  assumes "skill_list \<noteq> []"
  shows "edges_of_matches skill_list ms
     = (if \<forall>m\<in>set ms. index_of (fst m) \<le> length skill_list \<and> index_of (snd m) \<le> length skill_list
        then Inr (map (\<lambda>m. (skill_at skill_list (fst m), skill_at skill_list (snd m))) ms)
        else Inl IndexError)"
proof (induction ms)
  case Nil
  then show ?case by simp
next
  case (Cons m ms)
  obtain p s where m: "m = (p, s)" by (cases m)
  show ?case
    unfolding m by (simp add: py_index_skill[OF assms] Cons.IH)
qed

lemma attempt_graph_props:
  assumes ne: "skill_list \<noteq> []" and a: "attempt_graph response_text skill_list = Inr g"
  shows "wf_digraph g" and "set (nodes g) = set skill_list"
    and "\<exists>es. parse_dependencies response_text skill_list = Inr es \<and> set (edges g) = set es"
proof -
  from a obtain es where es: "parse_dependencies response_text skill_list = Inr es"
    and g: "g = add_edges_from es (add_nodes_from skill_list DiGraph)"
    by (auto simp: attempt_graph_def Let_def split: sum.splits)
  show "wf_digraph g"
    unfolding g by (intro wf_add_edges_from wf_add_nodes_from wf_DiGraph)
  have "fst ` set es \<subseteq> set skill_list \<and> snd ` set es \<subseteq> set skill_list"
  proof -
    from es have all: "\<forall>m\<in>set (dependency_matches response_text).
        index_of (fst m) \<le> length skill_list \<and> index_of (snd m) \<le> length skill_list"
      and eq: "es = map (\<lambda>m. (skill_at skill_list (fst m), skill_at skill_list (snd m)))
          (dependency_matches response_text)"
      by (auto simp: parse_dependencies_eq edges_of_matches_eq[OF ne] split: if_splits)
    show ?thesis
      unfolding eq using all skill_at_in_set[OF ne] by force
  qed
  then show "set (nodes g) = set skill_list"
    unfolding g by (auto simp: nodes_add_edges_from nodes_add_nodes_from DiGraph_def)
  show "\<exists>es. parse_dependencies response_text skill_list = Inr es \<and> set (edges g) = set es"
    using es unfolding g
    by (auto simp: edges_add_edges_from edges_add_nodes_from DiGraph_def)
qed

lemma attempts_shape:
  "attempts oracle skill_list ats = DiGraph
   \<or> (\<exists>i\<in>set ats. \<exists>response_text. oracle i skill_list = Inr response_text
        \<and> attempt_graph response_text skill_list = Inr (attempts oracle skill_list ats)
        \<and> is_directed_acyclic_graph (attempts oracle skill_list ats))"
  by (induction ats) (auto split: sum.splits)

lemma generate_dependency_graph_shape:
  assumes ne: "skill_list \<noteq> []"
  shows "generate_dependency_graph oracle skill_list = DiGraph
     \<or> (wf_digraph (generate_dependency_graph oracle skill_list)
        \<and> set (nodes (generate_dependency_graph oracle skill_list)) = set skill_list
        \<and> acyclic (set (edges (generate_dependency_graph oracle skill_list)))
        \<and> (\<forall>e\<in>set (edges (generate_dependency_graph oracle skill_list)). fst e \<noteq> snd e))"
proof -
  let ?g = "attempts oracle skill_list [0..<3]"
  have eq: "generate_dependency_graph oracle skill_list = ?g"
    using ne by (simp add: generate_dependency_graph_def)
  from attempts_shape[of "oracle" skill_list "[0..<3]"]
  show ?thesis
  proof
    assume "?g = DiGraph"
    then show ?thesis by (simp add: eq)
  next
    assume "\<exists>i\<in>set [0..<3]. \<exists>response_text. oracle i skill_list = Inr response_text
        \<and> attempt_graph response_text skill_list = Inr ?g \<and> is_directed_acyclic_graph ?g"
    then obtain t where t: "attempt_graph t skill_list = Inr ?g" and dag: "is_directed_acyclic_graph ?g"
      by blast
    note p = attempt_graph_props[OF ne t]
    have ac: "acyclic (set (edges ?g))" using dag is_dag_iff[OF p(1)] by simp
    have "fst e \<noteq> snd e" if "e \<in> set (edges ?g)" for e
    proof
      assume "fst e = snd e"
      then have "(fst e, fst e) \<in> set (edges ?g)" using that by (cases e) auto
      then have "(fst e, fst e) \<in> (set (edges ?g))\<^sup>+" by (rule r_into_trancl)
      with ac show False by (auto simp: acyclic_def)
    qed
    then show ?thesis using p ac by (simp add: eq)
  qed
qed

lemma attempts_error_first:
  "oracle i skill_list = Inr response_text \<Longrightarrow>
   parse_dependencies response_text skill_list = Inl e \<Longrightarrow>
   attempts oracle skill_list (i # rest) = DiGraph"
  by (simp add: attempt_graph_def)


lemmas eval_parse = generate_dependency_graph_def upt_rec attempt_graph_def parse_dependencies_def
  match_at_def is_digit_def is_space_def py_index_def int_of_digits_def digit_val_def
  add_nodes_from_def add_edges_from_def add_node_def add_edge_def DiGraph_def
  is_directed_acyclic_graph_def get_executable_skills_eq in_degree_def remove_nodes_from_def Let_def

text \<open>
  Claim C2. The builder does not filter the edges the oracle proposes. For a non-empty skill
  list, \<open>parse_dependencies\<close> maps every match \<open>i -> j\<close> of the oracle's answer to the
  pair of skills at these one-based indices (index 0 wraps to the last skill), and
  raises \<open>IndexError\<close> as soon as one index exceeds the length of the list; every parsed
  edge, a self-loop included, is put in the graph whose acyclicity is tested; an
  \<open>IndexError\<close> on the first attempt makes the builder return the empty graph; and in every
  case the builder returns a graph: the empty one, or an acyclic graph without self-loops
  whose nodes are exactly the skills and whose edges join nodes of the graph.
\<close>

theorem C2_builder_total:
  assumes "skill_list \<noteq> []"
  shows "parse_dependencies response_text skill_list =
      (if \<forall>m\<in>set (dependency_matches response_text).
            index_of (fst m) \<le> length skill_list \<and> index_of (snd m) \<le> length skill_list
       then Inr (map (\<lambda>m. (skill_at skill_list (fst m), skill_at skill_list (snd m)))
                   (dependency_matches response_text))
       else Inl IndexError)
   \<and> (attempt_graph response_text skill_list = Inr g \<longrightarrow>
        (\<exists>es. parse_dependencies response_text skill_list = Inr es \<and> set (edges g) = set es))
   \<and> (oracle 0 skill_list = Inr response_text
        \<and> parse_dependencies response_text skill_list = Inl IndexError \<longrightarrow>
        generate_dependency_graph oracle skill_list = DiGraph)
   \<and> (generate_dependency_graph oracle skill_list = DiGraph
      \<or> (wf_digraph (generate_dependency_graph oracle skill_list)
        \<and> set (nodes (generate_dependency_graph oracle skill_list)) = set skill_list
        \<and> acyclic (set (edges (generate_dependency_graph oracle skill_list)))
        \<and> (\<forall>e\<in>set (edges (generate_dependency_graph oracle skill_list)). fst e \<noteq> snd e)))"
proof -
  have 1: "parse_dependencies response_text skill_list =
      (if \<forall>m\<in>set (dependency_matches response_text).
            index_of (fst m) \<le> length skill_list \<and> index_of (snd m) \<le> length skill_list
       then Inr (map (\<lambda>m. (skill_at skill_list (fst m), skill_at skill_list (snd m)))
                   (dependency_matches response_text))
       else Inl IndexError)"
    unfolding parse_dependencies_eq by (rule edges_of_matches_eq[OF assms])
  have 2: "attempt_graph response_text skill_list = Inr g \<longrightarrow>
        (\<exists>es. parse_dependencies response_text skill_list = Inr es \<and> set (edges g) = set es)"
    using attempt_graph_props(3)[OF assms] by blast
  have 3: "oracle 0 skill_list = Inr response_text
        \<and> parse_dependencies response_text skill_list = Inl IndexError \<longrightarrow>
        generate_dependency_graph oracle skill_list = DiGraph"
    using assms attempts_error_first[of "oracle" 0 skill_list response_text IndexError "[1..<3]"]
    by (auto simp: generate_dependency_graph_def upt_rec[of 0])
  show ?thesis
    using 1 2 3 generate_dependency_graph_shape[OF assms, of "oracle"] by blast
qed

text \<open>The theorem at a two-skill list and the answer \<open>1 -> 2\<close>.\<close>

theorem C2_builder_total_witness:
  "parse_dependencies ''Dependencies:\<newline>1 -> 2'' [''a'', ''b''] = Inr [(''a'', ''b'')]
   \<and> generate_dependency_graph (\<lambda>i sk. Inr ''Dependencies:\<newline>1 -> 2'') [''a'', ''b'']
       = \<lparr>nodes = [''a'', ''b''], edges = [(''a'', ''b'')]\<rparr>"
proof -
  have m: "dependency_matches ''Dependencies:\<newline>1 -> 2'' = [(''1'', ''2'')]"
    by (simp add: dependency_matches_def match_at_def is_digit_def is_space_def)
  have i: "index_of ''1'' = 1" "index_of ''2'' = 2"
    by (simp_all add: index_of_def int_of_digits_def digit_val_def)
  have g: "generate_dependency_graph (\<lambda>i sk. Inr ''Dependencies:\<newline>1 -> 2'') [''a'', ''b'']
       = \<lparr>nodes = [''a'', ''b''], edges = [(''a'', ''b'')]\<rparr>"
    by (simp add: eval_parse)
  from C2_builder_total[of "[''a'', ''b'']" "''Dependencies:\<newline>1 -> 2''"
      "\<lparr>nodes = [''a'', ''b''], edges = [(''a'', ''b'')]\<rparr>"
      "\<lambda>i sk. Inr ''Dependencies:\<newline>1 -> 2''"]
  have "parse_dependencies ''Dependencies:\<newline>1 -> 2'' [''a'', ''b''] = Inr [(''a'', ''b'')]"
    by (simp add: m i skill_at_def)
  then show ?thesis using g by simp
qed

text \<open>
  A self-loop is kept and makes the attempt cyclic, so that three such answers give the
  empty graph; an index beyond the list raises \<open>IndexError\<close> and gives the empty graph; index 0
  is not rejected but denotes the last skill.
\<close>

theorem C2_edges_not_discarded_counterexample:
  "attempt_graph ''Dependencies:\<newline>1 -> 1'' [''a'']
     = Inr \<lparr>nodes = [''a''], edges = [(''a'', ''a'')]\<rparr>
   \<and> generate_dependency_graph (\<lambda>i sk. Inr ''Dependencies:\<newline>1 -> 1'') [''a''] = DiGraph
   \<and> parse_dependencies ''Dependencies:\<newline>1 -> 2'' [''a''] = Inl IndexError
   \<and> generate_dependency_graph (\<lambda>i sk. Inr ''Dependencies:\<newline>1 -> 2'') [''a''] = DiGraph
   \<and> parse_dependencies ''Dependencies:\<newline>0 -> 1'' [''a'', ''b''] = Inr [(''b'', ''a'')]"
  by (simp add: eval_parse)

section \<open>The retry policy of the builder\<close>


lemma attempts_skip_cyclic:
  assumes "\<forall>i\<in>set ks. \<exists>t g. oracle i skill_list = Inr t \<and> attempt_graph t skill_list = Inr g
             \<and> \<not> is_directed_acyclic_graph g"
  shows "attempts oracle skill_list (ks @ rest) = attempts oracle skill_list rest"
  using assms by (induction ks) auto

lemma attempts_acyclic_first:
  assumes "oracle k skill_list = Inr t" "attempt_graph t skill_list = Inr g"
    "is_directed_acyclic_graph g"
  shows "attempts oracle skill_list (k # rest) = g"
  using assms by simp

lemma attempts_raise_first:
  assumes "oracle k skill_list = Inl e
     \<or> (\<exists>t. oracle k skill_list = Inr t \<and> attempt_graph t skill_list = Inl e)"
  shows "attempts oracle skill_list (k # rest) = DiGraph"
  using assms by auto

lemma attempts_cong:
  assumes "\<forall>i\<in>set ks. oracle' i skill_list = oracle i skill_list"
  shows "attempts oracle' skill_list ks = attempts oracle skill_list ks"
  using assms by (induction ks) (auto split: sum.splits)

lemma upt_3_split:
  assumes "k < 3"
  shows "[0..<3] = [0..<k] @ k # [Suc k..<3]"
  using assms upt_conv_Cons[of k 3] upt_add_eq_append[of 0 k "3 - k"] by simp

lemma main_planner_graph_abort:
  assumes "generate_skill_list ask instruction get_skill_set = skill_list"
    "skill_list \<noteq> []" "generate_dependency_graph oracle skill_list = DiGraph"
  shows "main_planner ask oracle linprog rand instruction robots =
     Some (Returned () ([ProcessingInstruction instruction, SkillListHeader]
        @ map (\<lambda>(i, skill). SkillLine i skill) (enumerate 1 skill_list)
        @ [GraphHeader, GraphAbort]))"
  using assms by (simp add: main_planner_def Let_def DiGraph_def)

lemma skill_set_members:
  "''pick_and_place(red block, blue block)'' \<in> set get_skill_set"
  "''transport(table)'' \<in> set get_skill_set"
  "''done'' \<in> set get_skill_set"
  by (simp_all add: get_skill_set_def OBJECTS_def LOCATIONS_def)

lemma strip_skill:
  "strip ''pick_and_place(red block, blue block)'' = ''pick_and_place(red block, blue block)''"
  "strip ''transport(table)'' = ''transport(table)''"
  "strip ''done'' = ''done''"
  by (simp_all add: strip_def is_space_def)

lemma generate_skill_list_done:
  "generate_skill_list (\<lambda>instruction generated candidates. Inr ''done'') instruction
     get_skill_set = []"
  unfolding generate_skill_list_def
  by (subst generate_skill_loop.simps)
     (simp add: choose_best_skill_def strip_skill skill_set_members)

lemma generate_skill_list_two:
  "generate_skill_list
     (\<lambda>instruction generated candidates.
        if generated = [] then Inr ''pick_and_place(red block, blue block)''
        else if length generated = 1 then Inr ''transport(table)'' else Inr ''done'')
     instruction get_skill_set
   = [''pick_and_place(red block, blue block)'', ''transport(table)'']"
  unfolding generate_skill_list_def
  by (subst generate_skill_loop.simps)
     (simp add: choose_best_skill_def strip_skill skill_set_members)

text \<open>
  Claim C3. The builder asks the oracle at most three times, and an attempt uses nothing of
  the attempts before it. Let the skill list be non-empty and let the attempts before
  attempt \<open>k < 3\<close> all have produced a graph with a cycle. If attempt \<open>k\<close> produces an acyclic
  graph, that graph is the result. If attempt \<open>k\<close> raises an exception, in the oracle or in the
  parser, the result is the empty graph at once: an exception is not retried. If attempt
  \<open>k\<close> is the third and its graph is cyclic too, the result is the empty graph. The result
  depends on the oracle's answers to the attempts 0, 1 and 2 only. No failure value is
  passed to the driver: on the empty graph, \<^verbatim>\<open>main_planner\<close> prints that the dependency
  graph could not be generated and returns, without a round of allocation.
\<close>

theorem C3_retry_policy:
  assumes "skill_list \<noteq> []"
    and "k < 3"
    and "\<forall>i<k. \<exists>t g. oracle i skill_list = Inr t \<and> attempt_graph t skill_list = Inr g
             \<and> \<not> is_directed_acyclic_graph g"
  shows "(oracle k skill_list = Inr t \<and> attempt_graph t skill_list = Inr g
           \<and> is_directed_acyclic_graph g
         \<longrightarrow> generate_dependency_graph oracle skill_list = g)
    \<and> (oracle k skill_list = Inl e
           \<or> (\<exists>t. oracle k skill_list = Inr t \<and> attempt_graph t skill_list = Inl e)
         \<longrightarrow> generate_dependency_graph oracle skill_list = DiGraph)
    \<and> ((\<exists>t g. oracle k skill_list = Inr t \<and> attempt_graph t skill_list = Inr g
             \<and> \<not> is_directed_acyclic_graph g) \<and> k = 2
         \<longrightarrow> generate_dependency_graph oracle skill_list = DiGraph)
    \<and> ((\<forall>i<3. oracle' i skill_list = oracle i skill_list)
         \<longrightarrow> generate_dependency_graph oracle' skill_list
             = generate_dependency_graph oracle skill_list)
    \<and> (generate_skill_list ask instruction get_skill_set = skill_list
           \<and> generate_dependency_graph oracle skill_list = DiGraph
         \<longrightarrow> main_planner ask oracle linprog rand instruction robots =
             Some (Returned () ([ProcessingInstruction instruction, SkillListHeader]
               @ map (\<lambda>(i, skill). SkillLine i skill) (enumerate 1 skill_list)
               @ [GraphHeader, GraphAbort])))"
proof -
  have skip: "generate_dependency_graph oracle skill_list
      = attempts oracle skill_list (k # [Suc k..<3])"
    using assms attempts_skip_cyclic[of "[0..<k]" "oracle" skill_list "k # [Suc k..<3]"]
      upt_3_split[of k]
    by (simp add: generate_dependency_graph_def)
  have 1: "oracle k skill_list = Inr t \<and> attempt_graph t skill_list = Inr g
           \<and> is_directed_acyclic_graph g
         \<longrightarrow> generate_dependency_graph oracle skill_list = g"
    unfolding skip using attempts_acyclic_first by blast
  have 2: "oracle k skill_list = Inl e
           \<or> (\<exists>t. oracle k skill_list = Inr t \<and> attempt_graph t skill_list = Inl e)
         \<longrightarrow> generate_dependency_graph oracle skill_list = DiGraph"
    unfolding skip using attempts_raise_first by blast
  have 3: "(\<exists>t g. oracle k skill_list = Inr t \<and> attempt_graph t skill_list = Inr g
             \<and> \<not> is_directed_acyclic_graph g) \<and> k = 2
         \<longrightarrow> generate_dependency_graph oracle skill_list = DiGraph"
    unfolding skip by auto
  have 4: "(\<forall>i<3. oracle' i skill_list = oracle i skill_list)
         \<longrightarrow> generate_dependency_graph oracle' skill_list
             = generate_dependency_graph oracle skill_list"
    using attempts_cong[of "[0..<3]" oracle' skill_list "oracle"]
    by (simp add: generate_dependency_graph_def)
  have 5: "generate_skill_list ask instruction get_skill_set = skill_list
           \<and> generate_dependency_graph oracle skill_list = DiGraph
         \<longrightarrow> main_planner ask oracle linprog rand instruction robots =
             Some (Returned () ([ProcessingInstruction instruction, SkillListHeader]
               @ map (\<lambda>(i, skill). SkillLine i skill) (enumerate 1 skill_list)
               @ [GraphHeader, GraphAbort]))"
    using main_planner_graph_abort[OF _ assms(1)] by blast
  show ?thesis using 1 2 3 4 5 by blast
qed

text \<open>
  The theorem at \<open>k = 1\<close>: the first answer has the cycle \<open>1 -> 2 -> 1\<close>, the second one is
  acyclic and gives the result.
\<close>

theorem C3_retry_policy_witness:
  "generate_dependency_graph
     (\<lambda>i sk. if i = 0 then Inr ''Dependencies:\<newline>1 -> 2\<newline>2 -> 1''
              else Inr ''Dependencies:\<newline>1 -> 2'')
     [''pick_and_place(red block, blue block)'', ''transport(table)'']
   = \<lparr>nodes = [''pick_and_place(red block, blue block)'', ''transport(table)''],
      edges = [(''pick_and_place(red block, blue block)'', ''transport(table)'')]\<rparr>"
proof -
  let ?sl = "[''pick_and_place(red block, blue block)'', ''transport(table)'']"
  let ?g = "\<lparr>nodes = ?sl,
      edges = [(''pick_and_place(red block, blue block)'', ''transport(table)'')]\<rparr>"
  let ?o = "\<lambda>(i::nat) (sk::skill list). if i = 0
      then (Inr ''Dependencies:\<newline>1 -> 2\<newline>2 -> 1'' :: error + string)
      else Inr ''Dependencies:\<newline>1 -> 2''"
  have a0: "attempt_graph ''Dependencies:\<newline>1 -> 2\<newline>2 -> 1'' ?sl
      = Inr \<lparr>nodes = ?sl,
          edges = [(''pick_and_place(red block, blue block)'', ''transport(table)''),
                   (''transport(table)'', ''pick_and_place(red block, blue block)'')]\<rparr>"
    by (simp add: eval_parse)
  have c0: "\<not> is_directed_acyclic_graph \<lparr>nodes = ?sl,
          edges = [(''pick_and_place(red block, blue block)'', ''transport(table)''),
                   (''transport(table)'', ''pick_and_place(red block, blue block)'')]\<rparr>"
    by (simp add: eval_parse)
  have a1: "attempt_graph ''Dependencies:\<newline>1 -> 2'' ?sl = Inr ?g"
    by (simp add: eval_parse)
  have c1: "is_directed_acyclic_graph ?g"
    by (simp add: eval_parse)
  from C3_retry_policy[of ?sl 1 ?o "''Dependencies:\<newline>1 -> 2''" ?g]
  show ?thesis
    by (simp add: a0 c0 a1 c1)
qed

text \<open>
  An oracle that raises on the first request and would answer with an acyclic graph on the
  second: the builder returns the empty graph.
\<close>

theorem C3_oracle_error_not_retried_counterexample:
  "generate_dependency_graph
     (\<lambda>i sk. if i = 0 then Inl OracleError else Inr ''Dependencies:\<newline>1 -> 2'')
     [''pick_and_place(red block, blue block)'', ''transport(table)''] = DiGraph
   \<and> generate_dependency_graph (\<lambda>i sk. Inr ''Dependencies:\<newline>1 -> 2'')
     [''pick_and_place(red block, blue block)'', ''transport(table)'']
     = \<lparr>nodes = [''pick_and_place(red block, blue block)'', ''transport(table)''],
        edges = [(''pick_and_place(red block, blue block)'', ''transport(table)'')]\<rparr>"
  by (simp add: eval_parse)

section \<open>The rounds of the plan driver\<close>

text \<open>One round of the loop, case by case, and the loop on a graph without nodes.\<close>

lemma allocation_loop_empty_graph:
  "nodes graph = [] \<Longrightarrow>
   allocation_loop linprog rand robots step_counter graph out
     = Some (Returned (step_counter, graph) out)"
  by (subst allocation_loop.simps) (simp add: number_of_nodes_def)


lemma allocation_loop_waiting:
  assumes "nodes graph \<noteq> []" "get_executable_skills graph \<noteq> []"
    and "solve_task_allocation linprog (rand (step_counter + 1)) robots
           (get_executable_skills graph) = Inr []"
  shows "allocation_loop linprog rand robots step_counter graph out
     = allocation_loop linprog rand robots (step_counter + 1) graph
         (out @ [StepHeader (step_counter + 1), ExecutableSkills (get_executable_skills graph),
                 AssignmentsLine [], WaitingLine])"
  using assms by (subst allocation_loop.simps) (simp add: number_of_nodes_def Let_def)


lemma allocation_loop_raises:
  assumes "nodes graph \<noteq> []" "get_executable_skills graph \<noteq> []"
    and "solve_task_allocation linprog (rand (step_counter + 1)) robots
           (get_executable_skills graph) = Inl e"
  shows "allocation_loop linprog rand robots step_counter graph out
     = Some (Raised e (out @ [StepHeader (step_counter + 1),
                              ExecutableSkills (get_executable_skills graph)]))"
  using assms by (subst allocation_loop.simps) (simp add: number_of_nodes_def Let_def)

lemma allocation_loop_stalls:
  assumes ret: "allocation_loop linprog rand robots step_counter graph out = Some y"
  shows "\<not> (nodes graph \<noteq> [] \<and> get_executable_skills graph \<noteq> []
           \<and> (\<forall>n>step_counter. solve_task_allocation linprog (rand n) robots
                  (get_executable_skills graph) = Inr []))"
proof (rule allocation_loop.raw_induct[where P = "\<lambda>linprog rand robots step_counter graph out y.
           \<not> (nodes graph \<noteq> [] \<and> get_executable_skills graph \<noteq> []
           \<and> (\<forall>n>step_counter. solve_task_allocation linprog (rand n) robots
                  (get_executable_skills graph) = Inr []))", OF _ ret], goal_cases)
  case (1 loop linprog rand robots step_counter graph out y)
  show ?case
  proof
    assume stall: "nodes graph \<noteq> [] \<and> get_executable_skills graph \<noteq> []
           \<and> (\<forall>n>step_counter. solve_task_allocation linprog (rand n) robots
                  (get_executable_skills graph) = Inr [])"
    then have s: "solve_task_allocation linprog (rand (step_counter + 1)) robots
            (get_executable_skills graph) = Inr []"
      by simp
    from 1(2) stall s
    have "loop linprog rand robots (step_counter + 1) graph
         (out @ [StepHeader (step_counter + 1), ExecutableSkills (get_executable_skills graph),
                 AssignmentsLine [], WaitingLine]) = Some y"
      by (simp add: number_of_nodes_def Let_def)
    from 1(1)[OF this] stall show False by simp
  qed
qed

lemma allocation_loop_diverges:
  assumes "nodes graph \<noteq> []" "get_executable_skills graph \<noteq> []"
    and "\<forall>n>step_counter. solve_task_allocation linprog (rand n) robots
            (get_executable_skills graph) = Inr []"
  shows "allocation_loop linprog rand robots step_counter graph out = None"
proof (cases "allocation_loop linprog rand robots step_counter graph out")
  case None
  then show ?thesis .
next
  case (Some y)
  from allocation_loop_stalls[OF this] assms show ?thesis by blast
qed

lemma simulate_allocation_empty_graph:
  "simulate_allocation linprog rand robots DiGraph out
     = Some (Returned () (out @ [SimulationHeader, PlanningComplete]))"
  by (simp add: simulate_allocation_def allocation_loop_empty_graph DiGraph_def)

lemma main_planner_skill_list_abort:
  assumes "generate_skill_list ask instruction get_skill_set = []"
  shows "main_planner ask oracle linprog rand instruction robots
     = Some (Returned () [ProcessingInstruction instruction, SkillListAbort])"
  using assms by (simp add: main_planner_def Let_def)

text \<open>
  Claim C8. On the empty skill list the builder returns the empty graph, which has no node
  and no edge, without asking the oracle. The round loop on the empty graph ends at once
  and the line after it reports the planning as complete; but \<^verbatim>\<open>main_planner\<close> does not get
  there: when the generated skill list is empty it prints that no skill list could be
  generated and returns, before the builder is called.
\<close>

theorem C8_empty_skill_list_aborts:
  "generate_dependency_graph oracle [] = DiGraph
   \<and> nodes DiGraph = [] \<and> edges DiGraph = []
   \<and> simulate_allocation linprog rand robots DiGraph out
        = Some (Returned () (out @ [SimulationHeader, PlanningComplete]))
   \<and> (generate_skill_list ask instruction get_skill_set = [] \<longrightarrow>
        main_planner ask oracle linprog rand instruction robots
          = Some (Returned () [ProcessingInstruction instruction, SkillListAbort]))"
proof -
  have 1: "generate_dependency_graph oracle [] = DiGraph"
    by (simp add: generate_dependency_graph_def)
  have 2: "nodes DiGraph = [] \<and> edges DiGraph = []"
    by (simp add: DiGraph_def)
  show ?thesis
    using 1 2 simulate_allocation_empty_graph main_planner_skill_list_abort by blast
qed

text \<open>A decomposition oracle that answers \<^verbatim>\<open>done\<close> at once gives the empty skill list.\<close>

theorem C8_empty_skill_list_aborts_witness:
  "main_planner (\<lambda>instruction generated candidates. Inr ''done'') (\<lambda>attempt skill_list. Inl OracleError)
     (\<lambda>c A b bnds. \<lparr>success = False, sol_x = []\<rparr>) (\<lambda>n r s. 0)
     ''Do nothing.'' [\<lparr>robot_name = ''Arm_Robot_1'', robot_type = ''arm_robot''\<rparr>]
   = Some (Returned () [ProcessingInstruction ''Do nothing.'', SkillListAbort])"
  using C8_empty_skill_list_aborts[of "\<lambda>attempt skill_list. Inl OracleError"
      "\<lambda>c A b bnds. \<lparr>success = False, sol_x = []\<rparr>" "\<lambda>n r s. 0"
      "[\<lparr>robot_name = ''Arm_Robot_1'', robot_type = ''arm_robot''\<rparr>]" "[]"
      "\<lambda>instruction generated candidates. Inr ''done''" "''Do nothing.''"]
    generate_skill_list_done[of "''Do nothing.''"]
  by blast

text \<open>
  A decomposition oracle that fails gives the empty skill list as well; the output of the
  run is the abort message, and no line reports completion.
\<close>

theorem C8_complete_not_reported_counterexample:
  "main_planner (\<lambda>instruction generated candidates. Inl OracleError)
     (\<lambda>attempt skill_list. Inr ''Dependencies:'')
     (\<lambda>c A b bnds. \<lparr>success = True, sol_x = map (\<lambda>ci. 0) c\<rparr>) (\<lambda>n r s. 1 / 2)
     ''Stack the red block on the blue block.''
     [\<lparr>robot_name = ''Arm_Robot_1'', robot_type = ''arm_robot''\<rparr>]
   = Some (Returned ()
       [ProcessingInstruction ''Stack the red block on the blue block.'', SkillListAbort])
   \<and> PlanningComplete \<notin> set
       [ProcessingInstruction ''Stack the red block on the blue block.'', SkillListAbort]"
proof -
  have "generate_skill_list (\<lambda>instruction generated candidates. Inl OracleError)
      ''Stack the red block on the blue block.'' get_skill_set = []"
    unfolding generate_skill_list_def
    by (subst generate_skill_loop.simps) (simp add: choose_best_skill_def)
  then show ?thesis by (simp add: main_planner_skill_list_abort)
qed




text \<open>
  The condition under which \<^verbatim>\<open>calculate_weights\<close> gives a pair a weight other than 0.
  When no robot is compatible with any skill of the frontier, every objective coefficient
  is 0; a solver that reports failure, or returns a feasible point with these variables at
  their lower bound, then gives the empty dictionary.
\<close>

definition compatible :: "robot \<Rightarrow> skill \<Rightarrow> bool" where
  "compatible robot skill \<longleftrightarrow>
     (robot_type robot = ''arm_robot'' \<and> is_in ''pick_and_place'' skill)
     \<or> (robot_type robot = ''mobile_robot'' \<and> is_in ''transport'' skill)"

lemma incompatible_weight_zero:
  "\<not> compatible robot skill \<Longrightarrow> weight_entry v robot skill = 0"
  by (auto simp: compatible_def weight_entry_def Let_def)

lemma decode_assignments_no_ones:
  assumes "\<forall>r<length R. where_eq_1 (M ! r) = []"
  shows "decode_assignments R S M = []"
proof (rule ccontr)
  assume "decode_assignments R S M \<noteq> []"
  then obtain p where "p \<in> set (decode_assignments R S M)"
    by (cases "decode_assignments R S M") auto
  from fold_decode_mem[OF this[unfolded decode_assignments_def]] assms
  show False by auto
qed

lemma no_compatible_pair_unassigned:
  assumes ne: "sk \<noteq> []"
    and inc: "\<forall>robot\<in>set robots. \<forall>skill\<in>set sk. \<not> compatible robot skill"
    and contract: "success (lp_call linprog d robots sk) \<longrightarrow>
        lp_feasible (A_ub (length robots) (length sk)) (b_ub (length robots) (length sk))
          (bounds (length robots) (length sk)) (sol_x (lp_call linprog d robots sk))
        \<and> lp_idle_at_lower (map uminus (concat (calculate_weights d robots sk)))
            (bounds (length robots) (length sk)) (sol_x (lp_call linprog d robots sk))"
  shows "solve_task_allocation linprog d robots sk = Inr []"
proof (cases "success (lp_call linprog d robots sk)")
  case False
  then show ?thesis using ne by (simp add: solve_task_allocation_eq)
next
  case True
  let ?nr = "length robots" and ?ns = "length sk"
  let ?x = "sol_x (lp_call linprog d robots sk)"
  let ?c = "map uminus (concat (calculate_weights d robots sk))"
  from True contract have F: "lp_feasible (A_ub ?nr ?ns) (b_ub ?nr ?ns) (bounds ?nr ?ns) ?x"
    and I: "lp_idle_at_lower ?c (bounds ?nr ?ns) ?x" by simp_all
  note len = feasible_bounds(1)[OF F]
  from solve_task_allocation_decoded[OF ne True len] obtain M where
    sol: "solve_task_allocation linprog d robots sk = Inr (decode_assignments robots sk M)"
    and shape: "\<forall>r<?nr. length (M ! r) = ?ns
                \<and> (\<forall>k<?ns. M ! r ! k = np_round (?x ! (r * ?ns + k)))"
    by blast
  have zero: "M ! r ! k = 0" if r: "r < ?nr" and k: "k < ?ns" for r k
  proof -
    have i: "r * ?ns + k < ?nr * ?ns" by (rule index_bound[OF r k])
    have "\<not> compatible (robots ! r) (sk ! k)" using inc r k by simp
    then have "?c ! (r * ?ns + k) = 0"
      using cost_nth[OF r k, of d] by (simp add: incompatible_weight_zero)
    moreover have "r * ?ns + k < length ?c" unfolding cost_length by (rule i)
    moreover have "r * ?ns + k < length (bounds ?nr ?ns)" using i by (simp add: bounds_def)
    moreover have "r * ?ns + k < length ?x" using i len by simp
    ultimately have "?x ! (r * ?ns + k) = fst (bounds ?nr ?ns ! (r * ?ns + k))"
      using idle_nth[OF I] by blast
    then have "?x ! (r * ?ns + k) = 0" using i by (simp add: bounds_def)
    then show ?thesis using shape r k by (simp add: np_round_0_1)
  qed
  have "where_eq_1 (M ! r) = []" if r: "r < ?nr" for r
  proof -
    have "M ! r ! k \<noteq> 1" if "k < length (M ! r)" for k
      using zero[OF r, of k] that shape r by simp
    then show ?thesis by (auto simp: where_eq_1_def filter_empty_conv)
  qed
  then have "decode_assignments robots sk M = []"
    by (intro decode_assignments_no_ones) blast
  then show ?thesis using sol by simp
qed

text \<open>
  A mobile robot cannot perform a pick-and-place skill: the weight is 0, and a solver that
  answers with the zero point gives the empty dictionary.
\<close>

lemma mobile_robot_pick_unassigned:
  "solve_task_allocation (\<lambda>c A b bnds. \<lparr>success = True, sol_x = map (\<lambda>ci. 0) c\<rparr>) d
     [\<lparr>robot_name = ''Mobile_Robot_1'', robot_type = ''mobile_robot''\<rparr>]
     [''pick_and_place(red block, blue block)''] = Inr []"
  by (simp add: solve_task_allocation_eq lp_call_def calculate_weights_def reshape_def
      np_round_0_1 decode_assignments_def decode_row_def where_eq_1_def)

lemma generate_skill_list_one:
  "generate_skill_list
     (\<lambda>instruction generated candidates.
        if generated = [] then Inr ''pick_and_place(red block, blue block)'' else Inr ''done'')
     instruction get_skill_set
   = [''pick_and_place(red block, blue block)'']"
  unfolding generate_skill_list_def
  by (subst generate_skill_loop.simps)
     (simp add: choose_best_skill_def strip_skill skill_set_members)

lemma generate_dependency_graph_one:
  "generate_dependency_graph (\<lambda>attempt skill_list. Inr ''Dependencies:\<newline>None'')
     [''pick_and_place(red block, blue block)'']
   = \<lparr>nodes = [''pick_and_place(red block, blue block)''], edges = []\<rparr>"
  by (simp add: eval_parse)

text \<open>
  Claim C5. When the frontier is not empty and the dictionary returned for the round is
  empty, the driver prints the waiting message and starts the next round with the same
  graph and the same robots; only the step counter, the output and the random draws
  differ. Nothing bounds the number of such rounds: if the dictionary is empty in every
  later round, the loop never ends. It is so in particular when no robot is compatible
  with any skill of the frontier and the solver, in every round, reports failure or
  returns a feasible point whose variables of objective coefficient 0 are at their lower
  bound.
\<close>

theorem C5_waiting_is_unbounded:
  "(nodes graph \<noteq> [] \<and> get_executable_skills graph \<noteq> []
      \<and> solve_task_allocation linprog (rand (step_counter + 1)) robots
           (get_executable_skills graph) = Inr []
    \<longrightarrow> allocation_loop linprog rand robots step_counter graph out
        = allocation_loop linprog rand robots (step_counter + 1) graph
            (out @ [StepHeader (step_counter + 1),
                    ExecutableSkills (get_executable_skills graph),
                    AssignmentsLine [], WaitingLine]))
   \<and> (nodes graph \<noteq> [] \<and> get_executable_skills graph \<noteq> []
      \<and> (\<forall>n>step_counter. solve_task_allocation linprog (rand n) robots
             (get_executable_skills graph) = Inr [])
    \<longrightarrow> allocation_loop linprog rand robots step_counter graph out = None)
   \<and> (nodes graph \<noteq> [] \<and> get_executable_skills graph \<noteq> []
      \<and> (\<forall>robot\<in>set robots. \<forall>skill\<in>set (get_executable_skills graph).
            \<not> compatible robot skill)
      \<and> (\<forall>n. success (lp_call linprog (rand n) robots (get_executable_skills graph)) \<longrightarrow>
            lp_feasible (A_ub (length robots) (length (get_executable_skills graph)))
              (b_ub (length robots) (length (get_executable_skills graph)))
              (bounds (length robots) (length (get_executable_skills graph)))
              (sol_x (lp_call linprog (rand n) robots (get_executable_skills graph)))
            \<and> lp_idle_at_lower
                (map uminus (concat (calculate_weights (rand n) robots
                   (get_executable_skills graph))))
                (bounds (length robots) (length (get_executable_skills graph)))
                (sol_x (lp_call linprog (rand n) robots (get_executable_skills graph))))
    \<longrightarrow> allocation_loop linprog rand robots step_counter graph out = None)"
proof -
  have 3: "allocation_loop linprog rand robots step_counter graph out = None"
    if n: "nodes graph \<noteq> []" and f: "get_executable_skills graph \<noteq> []"
      and inc: "\<forall>robot\<in>set robots. \<forall>skill\<in>set (get_executable_skills graph).
            \<not> compatible robot skill"
      and con: "\<forall>n. success (lp_call linprog (rand n) robots (get_executable_skills graph)) \<longrightarrow>
            lp_feasible (A_ub (length robots) (length (get_executable_skills graph)))
              (b_ub (length robots) (length (get_executable_skills graph)))
              (bounds (length robots) (length (get_executable_skills graph)))
              (sol_x (lp_call linprog (rand n) robots (get_executable_skills graph)))
            \<and> lp_idle_at_lower
                (map uminus (concat (calculate_weights (rand n) robots
                   (get_executable_skills graph))))
                (bounds (length robots) (length (get_executable_skills graph)))
                (sol_x (lp_call linprog (rand n) robots (get_executable_skills graph)))"
  proof -
    have "solve_task_allocation linprog (rand m) robots (get_executable_skills graph) = Inr []"
      for m
      by (rule no_compatible_pair_unassigned[OF f inc]) (use con in blast)
    then show ?thesis by (intro allocation_loop_diverges[OF n f]) blast
  qed
  show ?thesis
    using allocation_loop_waiting[of graph linprog rand step_counter robots out]
      allocation_loop_diverges[of graph step_counter linprog rand robots out] 3
    by blast
qed

text \<open>One mobile robot and a graph whose only node is a pick-and-place skill.\<close>

theorem C5_waiting_is_unbounded_witness:
  "allocation_loop (\<lambda>c A b bnds. \<lparr>success = True, sol_x = map (\<lambda>ci. 0) c\<rparr>) (\<lambda>n r s. 1 / 2)
     [\<lparr>robot_name = ''Mobile_Robot_1'', robot_type = ''mobile_robot''\<rparr>] 0
     \<lparr>nodes = [''pick_and_place(red block, blue block)''], edges = []\<rparr> [] = None"
proof -
  let ?g = "\<lparr>nodes = [''pick_and_place(red block, blue block)''], edges = []\<rparr>"
  have f: "get_executable_skills ?g = [''pick_and_place(red block, blue block)'']"
    by (simp add: get_executable_skills_eq in_degree_def)
  have "nodes ?g \<noteq> [] \<and> get_executable_skills ?g \<noteq> []
      \<and> (\<forall>n>0. solve_task_allocation (\<lambda>c A b bnds. \<lparr>success = True, sol_x = map (\<lambda>ci. 0) c\<rparr>)
             ((\<lambda>n r s. 1 / 2) n)
             [\<lparr>robot_name = ''Mobile_Robot_1'', robot_type = ''mobile_robot''\<rparr>]
             (get_executable_skills ?g) = Inr [])"
    unfolding f by (simp add: mobile_robot_pick_unassigned)
  with C5_waiting_is_unbounded[of ?g
      "\<lambda>c A b bnds. \<lparr>success = True, sol_x = map (\<lambda>ci. 0) c\<rparr>" "\<lambda>n r s. 1 / 2" 0
      "[\<lparr>robot_name = ''Mobile_Robot_1'', robot_type = ''mobile_robot''\<rparr>]" "[]"]
  show ?thesis by blast
qed

text \<open>
  The whole planner on that input: the skill list has the one pick-and-place skill, the
  graph has no edge, and the run has no outcome.
\<close>

theorem C5_planner_never_returns_counterexample:
  "main_planner
     (\<lambda>instruction generated candidates.
        if generated = [] then Inr ''pick_and_place(red block, blue block)'' else Inr ''done'')
     (\<lambda>attempt skill_list. Inr ''Dependencies:\<newline>None'')
     (\<lambda>c A b bnds. \<lparr>success = True, sol_x = map (\<lambda>ci. 0) c\<rparr>) (\<lambda>n r s. 1 / 2)
     ''Stack the red block on the blue block.''
     [\<lparr>robot_name = ''Mobile_Robot_1'', robot_type = ''mobile_robot''\<rparr>] = None"
proof -
  let ?g = "\<lparr>nodes = [''pick_and_place(red block, blue block)''], edges = []\<rparr>"
  let ?L = "\<lambda>(c :: real list) (A :: real list list) (b :: real list) (bnds :: (real \<times> real) list).
              \<lparr>success = True, sol_x = map (\<lambda>ci. 0) c\<rparr>"
  let ?d = "\<lambda>(n :: nat) (r :: nat) (s :: nat). 1 / 2 :: real"
  let ?R = "[\<lparr>robot_name = ''Mobile_Robot_1'', robot_type = ''mobile_robot''\<rparr>]"
  have f: "get_executable_skills ?g = [''pick_and_place(red block, blue block)'']"
    by (simp add: get_executable_skills_eq in_degree_def)
  have n: "nodes ?g \<noteq> []" and fr: "get_executable_skills ?g \<noteq> []"
    by (simp_all add: f)
  have st: "\<forall>n>0. solve_task_allocation ?L (?d n) ?R (get_executable_skills ?g) = Inr []"
    unfolding f by (simp add: mobile_robot_pick_unassigned)
  have loop: "allocation_loop ?L ?d ?R 0 ?g out = None" for out
    by (rule allocation_loop_diverges[OF n fr st])
  show ?thesis
    by (simp add: main_planner_def Let_def generate_skill_list_one
        generate_dependency_graph_one simulate_allocation_def loop)
qed

section \<open>Termination of the rounds on an acyclic graph\<close>













end
